theory Spec2Isabelle
  imports Main
begin

section \<open>Python values and errors\<close>

text \<open>
  The hashable values that \<^verbatim>\<open>tulip/transys/transys.py\<close> handles as state identifiers and
  atomic propositions: integers (\<^verbatim>\<open>range(m, m+n)\<close>), strings (\<^verbatim>\<open>'s0'\<close>, \<^verbatim>\<open>'p'\<close>, \<^verbatim>\<open>'!p'\<close>)
  and the constant \<^verbatim>\<open>True\<close> that \<^verbatim>\<open>negation_closure\<close> appends.  Integers and \<^verbatim>\<open>True\<close> are kept
  apart here (Python identifies \<^verbatim>\<open>True\<close> with \<^verbatim>\<open>1\<close> as a set member); no function below
  puts an integer into a set of propositions.
\<close>

datatype atom = AInt int | AStr string | ATrue

text \<open>
  An element of a labeling list \<^verbatim>\<open>L\<close>: a bare value, a set of propositions (given as the
  list of its members in iteration order), or a pair \<^verbatim>\<open>(state, label)\<close>.
\<close>

datatype pyobj = Atom atom | SetOf "atom list" | Tuple2 atom pyobj

text \<open>
  Exceptions as values.  The first six are the Python exceptions that the source raises
  itself or that its statements raise (\<^verbatim>\<open>PyException\<close> is the bare \<^verbatim>\<open>Exception\<close> of
  \<^verbatim>\<open>sync_prod\<close>).  The last three are the failures of the graph container, which the
  source imports from \<^verbatim>\<open>labeled_graphs\<close> and \<^verbatim>\<open>mathset\<close>.
\<close>

datatype error =
    TypeError | ValueError | IndexError | AttributeError | NotImplementedError
  | PyException
  | DomainError | DuplicateStateError | UnknownStateError

definition and_then :: "error + 'x \<Rightarrow> ('x \<Rightarrow> error + 'y) \<Rightarrow> error + 'y" where
  "and_then m f = (case m of Inl e \<Rightarrow> Inl e | Inr x \<Rightarrow> f x)"

subsection \<open>\<^verbatim>\<open>str\<close> of a value\<close>

fun digits :: "nat \<Rightarrow> string" where
  "digits n =
     (if n < 10 then [''0123456789'' ! n]
      else digits (n div 10) @ [''0123456789'' ! (n mod 10)])"

declare digits.simps [simp del]

definition str_int :: "int \<Rightarrow> string" where
  "str_int i = (if i < 0 then CHR ''-'' # digits (nat (- i)) else digits (nat i))"

fun str :: "atom \<Rightarrow> string" where
  "str (AInt i) = str_int i"
| "str (AStr s) = s"
| "str ATrue = ''True''"

text \<open>\<^verbatim>\<open>range(a, b)\<close> of Python 2: the list \<^verbatim>\<open>a, a+1, ..., b-1\<close>, empty when \<^verbatim>\<open>b <= a\<close>.\<close>

definition py_range :: "int \<Rightarrow> int \<Rightarrow> int list" where
  "py_range a b = map (\<lambda>k. a + int k) [0..<nat (b - a)]"

section \<open>\<^verbatim>\<open>negation_closure\<close>\<close>

text \<open>
  Modelled from the spec: \<^verbatim>\<open>mathset.unique\<close> is imported by the source and not part of it.
  The spec describes its result as duplicate-eliminated and order-preserving-first-seen:
  an element is appended to the result unless it is already there.
\<close>

definition unique :: "'x list \<Rightarrow> 'x list" where
  "unique xs = fold (\<lambda>x seen. if x \<in> set seen then seen else seen @ [x]) xs []"

text \<open>
  The inner function \<^verbatim>\<open>negate\<close>: \<^verbatim>\<open>x.find('!') == 0\<close> holds exactly when \<^verbatim>\<open>x\<close> starts with
  \<^verbatim>\<open>'!'\<close>.
\<close>

definition negate :: "string \<Rightarrow> string" where
  "negate x = (if x \<noteq> [] \<and> hd x = CHR ''!'' then tl x else CHR ''!'' # x)"

text \<open>
  The comprehension \<^verbatim>\<open>[f(x) for x in atomic_propositions for f in (lambda x: x, negate)]\<close>.
  \<^verbatim>\<open>negate\<close> calls \<^verbatim>\<open>x.find\<close>, which only a string has: on any other element the
  comprehension stops with an \<^verbatim>\<open>AttributeError\<close>.
\<close>

fun closure_items :: "pyobj list \<Rightarrow> error + atom list" where
  "closure_items [] = Inr []"
| "closure_items (Atom (AStr x) # xs) =
     and_then (closure_items xs) (\<lambda>r. Inr (AStr x # AStr (negate x) # r))"
| "closure_items (_ # xs) = Inl AttributeError"

definition negation_closure :: "pyobj list \<Rightarrow> error + atom list" where
  "negation_closure atomic_propositions =
     and_then (closure_items atomic_propositions) (\<lambda>ap. Inr (unique (ap @ [ATrue])))"

text \<open>The position at which a value is first seen in a list.\<close>

definition first_seen :: "'x list \<Rightarrow> 'x \<Rightarrow> nat" where
  "first_seen xs x = length (takeWhile (\<lambda>y. y \<noteq> x) xs)"

text \<open>What the comprehension and \<^verbatim>\<open>+[True]\<close> generate for a list of strings.\<close>

definition generated :: "string list \<Rightarrow> atom list" where
  "generated ps = concat (map (\<lambda>p. [AStr p, AStr (negate p)]) ps) @ [ATrue]"

section \<open>Transition systems\<close>

text \<open>
  A \<^verbatim>\<open>FiniteTransitionSystem\<close>: the two label sets that \<^verbatim>\<open>__init__\<close> creates
  (\<^verbatim>\<open>atomic_propositions\<close>, \<^verbatim>\<open>actions\<close>) and the graph it inherits from
  \<^verbatim>\<open>LabeledStateDiGraph\<close>: the states in insertion order, the initial states, the label
  of a state (\<open>None\<close> for a state without a label, whose label dict is empty;
  \<open>Some l\<close> for a state whose label dict is \<^verbatim>\<open>{'ap': l}\<close>), and the transitions,
  each with its action (\<open>None\<close> for an edge whose label dict is empty).
\<close>

record ('s, 'a) fts =
  name :: string
  atomic_propositions :: "atom set"
  actions :: "'a set"
  states :: "'s list"
  initial :: "'s set"
  label_of :: "'s \<Rightarrow> atom set option"
  transitions :: "('s \<times> 's \<times> 'a option) list"
  mutants :: bool

text \<open>
  An \<^verbatim>\<open>OpenFiniteTransitionSystem\<close>: a separate class with two action sets.  It derives
  from \<^verbatim>\<open>LabeledStateDiGraph\<close>, not from \<^verbatim>\<open>FiniteTransitionSystem\<close>.
\<close>

record ('s, 'a) open_fts =
  open_name :: string
  open_atomic_propositions :: "atom set"
  sys_actions :: "'a set"
  env_actions :: "'a set"
  open_states :: "'s list"
  open_initial :: "'s set"

text \<open>
  What a caller can pass where a transition system is expected; the \<^verbatim>\<open>isinstance\<close> tests
  of the source tell the cases apart.  \<^verbatim>\<open>automata.BuchiAutomaton\<close> is a class of another
  module: its objects are values of a type parameter.
\<close>

datatype ('s, 'a, 'c) operand =
    FiniteTransitionSystem "('s, 'a) fts"
  | OpenFiniteTransitionSystem "('s, 'a) open_fts"
  | BuchiAutomaton 'c
  | OtherObject

text \<open>The result of \<^verbatim>\<open>sync_prod\<close>: a transition system, or what the automata module builds.\<close>

datatype ('p, 'r) product = ProductTS 'p | ProductBA 'r

text \<open>
  \<^verbatim>\<open>FiniteTransitionSystem(name=..., mutable=...)\<close> with the default arguments
  \<^verbatim>\<open>atomic_propositions=[]\<close> and \<^verbatim>\<open>actions=[]\<close>: an empty system.
\<close>

definition new_fts :: "string \<Rightarrow> bool \<Rightarrow> ('s, 'a) fts" where
  "new_fts nm mutable =
     \<lparr>name = nm, atomic_propositions = {}, actions = {}, states = [], initial = {},
      label_of = (\<lambda>s. None), transitions = [], mutants = mutable\<rparr>"

subsection \<open>The graph container\<close>

text \<open>
  Modelled from the spec: \<^verbatim>\<open>states.add\<close> of \<^verbatim>\<open>labeled_graphs\<close>, which is not under src/
  (spec 4.2, add_state with no label: a new state is added; re-adding a state with an
  identical label is a no-op; a state already present with a conflicting label fails
  with a DuplicateStateError).
\<close>

definition states_add :: "'s \<Rightarrow> ('s, 'a) fts \<Rightarrow> error + ('s, 'a) fts" where
  "states_add s ts =
     (if s \<in> set (states ts)
      then (if label_of ts s = None then Inr ts else Inl DuplicateStateError)
      else Inr (ts\<lparr>states := states ts @ [s]\<rparr>))"

text \<open>
  Modelled from the spec: \<^verbatim>\<open>states.add_from\<close> of \<^verbatim>\<open>labeled_graphs\<close>, which is not under
  src/: \<^verbatim>\<open>states.add\<close> for each element in turn.
\<close>

fun states_add_from :: "'s list \<Rightarrow> ('s, 'a) fts \<Rightarrow> error + ('s, 'a) fts" where
  "states_add_from [] ts = Inr ts"
| "states_add_from (s # ss) ts = and_then (states_add s ts) (states_add_from ss)"

text \<open>
  Modelled from the spec: \<^verbatim>\<open>states.initial |= ...\<close> of \<^verbatim>\<open>labeled_graphs\<close>, which is not
  under src/ (spec 4.2, set_initial: every id must already exist; union into the initial
  subset; spec 7: a reference to a nonexistent state is an UnknownStateError).
\<close>

definition initial_union :: "'s set \<Rightarrow> ('s, 'a) fts \<Rightarrow> error + ('s, 'a) fts" where
  "initial_union ss ts =
     (if ss \<subseteq> set (states ts) then Inr (ts\<lparr>initial := initial ts \<union> ss\<rparr>)
      else Inl UnknownStateError)"

text \<open>
  Modelled from the spec: \<^verbatim>\<open>states.label\<close> of \<^verbatim>\<open>labeled_graphs\<close>, which is not under src/
  (spec 4.2, label_state: overwrites the state's label and validates that the label is a
  subset of the current AP set; spec 4.1: a value outside the declared universe fails
  with a DomainError; spec 7: UnknownStateError for a state that does not exist).
\<close>

definition states_label :: "'s \<Rightarrow> atom set \<Rightarrow> ('s, 'a) fts \<Rightarrow> error + ('s, 'a) fts" where
  "states_label s l ts =
     (if s \<notin> set (states ts) then Inl UnknownStateError
      else if \<not> l \<subseteq> atomic_propositions ts then Inl DomainError
      else Inr (ts\<lparr>label_of := (label_of ts)(s \<mapsto> l)\<rparr>))"

text \<open>
  Modelled from the spec: \<^verbatim>\<open>states.find()\<close> of \<^verbatim>\<open>labeled_graphs\<close>, which is not under
  src/: every state paired with its label (spec 3: a state has zero or one label).
\<close>

definition states_find :: "('s, 'a) fts \<Rightarrow> ('s \<times> atom set option) list" where
  "states_find ts = map (\<lambda>s. (s, label_of ts s)) (states ts)"

text \<open>
  Modelled from the spec: \<^verbatim>\<open>transitions.add\<close> of \<^verbatim>\<open>labeled_graphs\<close>, which is not under
  src/ (spec 4.2, add_transition without a label: both endpoints must exist, an
  UnknownStateError otherwise; spec 3: the transition relation is an ordered multiset of
  triples, so the new triple is appended).
\<close>

definition transitions_add :: "'s \<Rightarrow> 's \<Rightarrow> ('s, 'a) fts \<Rightarrow> error + ('s, 'a) fts" where
  "transitions_add from_state to_state ts =
     (if from_state \<in> set (states ts) \<and> to_state \<in> set (states ts)
      then Inr (ts\<lparr>transitions := transitions ts @ [(from_state, to_state, None)]\<rparr>)
      else Inl UnknownStateError)"

text \<open>
  Modelled from the spec: \<^verbatim>\<open>transitions.add_labeled\<close> of \<^verbatim>\<open>labeled_graphs\<close>, which is
  not under src/ (spec 4.2, add_transition with a label: both endpoints must exist, and
  the label is validated against the action alphabet, a DomainError otherwise).
\<close>

definition transitions_add_labeled ::
  "'s \<Rightarrow> 's \<Rightarrow> 'a \<Rightarrow> ('s, 'a) fts \<Rightarrow> error + ('s, 'a) fts" where
  "transitions_add_labeled from_state to_state act ts =
     (if \<not> (from_state \<in> set (states ts) \<and> to_state \<in> set (states ts))
      then Inl UnknownStateError
      else if act \<notin> actions ts then Inl DomainError
      else Inr (ts\<lparr>transitions := transitions ts @ [(from_state, to_state, Some act)]\<rparr>))"

text \<open>
  Modelled from the spec: the operator \<^verbatim>\<open>*\<close> of \<^verbatim>\<open>mathset.MathSet\<close>, which is not under
  src/ (spec 4.1, cartesian: all pairs \<open>(x, y)\<close> with \<open>x\<close> in the first set and \<open>y\<close> in
  the second).
\<close>

definition cartesian :: "'a set \<Rightarrow> 'b set \<Rightarrow> ('a \<times> 'b) set" where
  "cartesian A B = A \<times> B"

text \<open>The label of a state as a set: empty for a state without a label.\<close>

definition label_set :: "('s, 'a) fts \<Rightarrow> 's \<Rightarrow> atom set" where
  "label_set ts s = (case label_of ts s of None \<Rightarrow> {} | Some l \<Rightarrow> l)"

text \<open>
  Modelled from the spec: \<^verbatim>\<open>LabeledStateDiGraph.tensor_product\<close>, which is not under src/
  (spec 4.3, synchronous product: it fills the states, the initial states, the labels
  and the transitions of the product system it is given; the states are the pairs of
  states, the initial states the pairs of initial states, the label of a pair is the
  union of the labels, and a pair moves under \<open>(a1, a2)\<close> when its first component moves
  under \<open>a1\<close> and its second under \<open>a2\<close>).
\<close>

definition tensor_product ::
  "('s, 'a) fts \<Rightarrow> ('t, 'b) fts \<Rightarrow> ('s \<times> 't, 'a \<times> 'b) fts \<Rightarrow> ('s \<times> 't, 'a \<times> 'b) fts" where
  "tensor_product self other prod_sys =
     prod_sys\<lparr>
       states := List.product (states self) (states other),
       initial := initial self \<times> initial other,
       label_of := (\<lambda>(s1, s2).
          if s1 \<in> set (states self) \<and> s2 \<in> set (states other)
          then Some (label_set self s1 \<union> label_set other s2) else None),
       transitions :=
          [((s1, s2), (t1, t2), Some (a1, a2)).
             (s1, t1, Some a1) \<leftarrow> transitions self, (s2, t2, Some a2) \<leftarrow> transitions other]\<rparr>"

text \<open>
  Modelled from the spec: \<^verbatim>\<open>LabeledStateDiGraph.cartesian_product\<close>, which is not under
  src/ (spec 4.3, asynchronous product: states, initial states and labels as for the
  synchronous product; a pair moves under \<open>a\<close> when one of its components moves under
  \<open>a\<close> and the other one stays).
\<close>

definition cartesian_product ::
  "('s, 'a) fts \<Rightarrow> ('t, 'a) fts \<Rightarrow> ('s \<times> 't, 'a) fts \<Rightarrow> ('s \<times> 't, 'a) fts" where
  "cartesian_product self other prod_sys =
     prod_sys\<lparr>
       states := List.product (states self) (states other),
       initial := initial self \<times> initial other,
       label_of := (\<lambda>(s1, s2).
          if s1 \<in> set (states self) \<and> s2 \<in> set (states other)
          then Some (label_set self s1 \<union> label_set other s2) else None),
       transitions :=
          [((s1, s2), (t1, s2), Some a).
             (s1, t1, Some a) \<leftarrow> transitions self, s2 \<leftarrow> states other]
          @ [((s1, s2), (s1, t2), Some a).
             s1 \<leftarrow> states self, (s2, t2, Some a) \<leftarrow> transitions other]\<rparr>"

subsection \<open>\<^verbatim>\<open>__add__\<close>: merging\<close>

text \<open>
  The first loop of \<^verbatim>\<open>__add__\<close>, over \<^verbatim>\<open>other.states.find()\<close>.  \<^verbatim>\<open>if label:\<close> tests the
  label dict of the state, which is empty exactly for a state without a label; a state
  labelled with the empty set of propositions has the non-empty dict \<^verbatim>\<open>{'ap': set()}\<close>.
\<close>

fun add_states ::
  "('s \<times> atom set option) list \<Rightarrow> ('s, 'a) fts \<Rightarrow> error + ('s, 'a) fts" where
  "add_states [] self = Inr self"
| "add_states ((state, label) # rest) self =
     and_then (if state \<notin> set (states self) then states_add state self else Inr self)
       (\<lambda>self. and_then (case label of None \<Rightarrow> Inr self
                                    | Some ap \<Rightarrow> states_label state ap self)
       (add_states rest))"

text \<open>The second loop of \<^verbatim>\<open>__add__\<close>, over \<^verbatim>\<open>other.transitions.find()\<close>.\<close>

fun add_transitions ::
  "('s \<times> 's \<times> 'a option) list \<Rightarrow> ('s, 'a) fts \<Rightarrow> error + ('s, 'a) fts" where
  "add_transitions [] self = Inr self"
| "add_transitions ((from_state, to_state, label_dict) # rest) self =
     and_then (case label_dict of
                 None \<Rightarrow> transitions_add from_state to_state self
               | Some sublabel_value \<Rightarrow>
                   transitions_add_labeled from_state to_state sublabel_value self)
       (add_transitions rest)"

text \<open>
  \<^verbatim>\<open>__add__\<close>, as a function of the two systems: the value is the state of \<^verbatim>\<open>self\<close> after
  the call, which is also the state of the copy that the call returns.
\<close>

definition fts_add :: "('s, 'a) fts \<Rightarrow> ('s, 'a, 'c) operand \<Rightarrow> error + ('s, 'a) fts" where
  "fts_add self other_obj =
     (case other_obj of
        FiniteTransitionSystem other \<Rightarrow>
          (let self = self\<lparr>atomic_propositions :=
                        atomic_propositions self \<union> atomic_propositions other\<rparr>;
               self = self\<lparr>actions := actions self \<union> actions other\<rparr>
           in and_then (add_states (states_find other) self)
                (\<lambda>self. and_then (initial_union (initial other) self)
                  (add_transitions (transitions other))))
      | _ \<Rightarrow> Inl TypeError)"

subsection \<open>Products\<close>

text \<open>\<^verbatim>\<open>_sync_prod\<close>: the synchronous (tensor) product with another transition system.\<close>

definition sync_prod' :: "('s, 'a) fts \<Rightarrow> ('t, 'b) fts \<Rightarrow> ('s \<times> 't, 'a \<times> 'b) fts" where
  "sync_prod' self ts =
     (let mutable = (if mutants self \<or> mutants ts then True else False);
          prod_ts = new_fts [] mutable;
          prod_ts = prod_ts\<lparr>atomic_propositions := atomic_propositions prod_ts
                       \<union> (atomic_propositions self \<union> atomic_propositions ts)\<rparr>;
          prod_ts = prod_ts\<lparr>actions := actions prod_ts
                       \<union> cartesian (actions self) (actions ts)\<rparr>
      in tensor_product self ts prod_ts)"

text \<open>
  \<^verbatim>\<open>sync_prod\<close>.  \<^verbatim>\<open>automata._ts_ba_sync_prod\<close> belongs to another module and is a
  parameter.
\<close>

definition sync_prod ::
  "(('s, 'a) fts \<Rightarrow> 'c \<Rightarrow> error + 'r) \<Rightarrow> ('s, 'a) fts \<Rightarrow> ('t, 'b, 'c) operand
     \<Rightarrow> error + (('s \<times> 't, 'a \<times> 'b) fts, 'r) product" where
  "sync_prod ts_ba_sync_prod self ts_or_ba =
     (case ts_or_ba of
        FiniteTransitionSystem ts \<Rightarrow> Inr (ProductTS (sync_prod' self ts))
      | BuchiAutomaton ba \<Rightarrow> and_then (ts_ba_sync_prod self ba) (\<lambda>p. Inr (ProductBA p))
      | _ \<Rightarrow> Inl PyException)"

text \<open>\<^verbatim>\<open>__mul__\<close>\<close>

definition fts_mul ::
  "(('s, 'a) fts \<Rightarrow> 'c \<Rightarrow> error + 'r) \<Rightarrow> ('s, 'a) fts \<Rightarrow> ('t, 'b, 'c) operand
     \<Rightarrow> error + (('s \<times> 't, 'a \<times> 'b) fts, 'r) product" where
  "fts_mul ts_ba_sync_prod self ts_or_ba = sync_prod ts_ba_sync_prod self ts_or_ba"

text \<open>\<^verbatim>\<open>async_prod\<close>: the asynchronous product.\<close>

definition async_prod ::
  "('s, 'a) fts \<Rightarrow> ('t, 'a, 'c) operand \<Rightarrow> error + ('s \<times> 't, 'a) fts" where
  "async_prod self ts_obj =
     (case ts_obj of
        FiniteTransitionSystem ts \<Rightarrow>
          (let mutable = (if mutants self \<or> mutants ts then True else False);
               prod_ts = new_fts [] mutable;
               prod_ts = prod_ts\<lparr>atomic_propositions := atomic_propositions prod_ts
                            \<union> (atomic_propositions self \<union> atomic_propositions ts)\<rparr>;
               prod_ts = prod_ts\<lparr>actions := actions prod_ts \<union> (actions self \<union> actions ts)\<rparr>
           in Inr (cartesian_product self ts prod_ts))
      | _ \<Rightarrow> Inl TypeError)"

text \<open>\<^verbatim>\<open>__or__\<close>\<close>

definition fts_or ::
  "('s, 'a) fts \<Rightarrow> ('t, 'a, 'c) operand \<Rightarrow> error + ('s \<times> 't, 'a) fts" where
  "fts_or self ts = async_prod self ts"

subsection \<open>Operations that are declared and not implemented\<close>

definition intersection :: "('s, 'a) fts \<Rightarrow> error + 'r" where
  "intersection self = Inl NotImplementedError"

definition difference :: "('s, 'a) fts \<Rightarrow> error + 'r" where
  "difference self = Inl NotImplementedError"

definition composition :: "('s, 'a) fts \<Rightarrow> error + 'r" where
  "composition self = Inl NotImplementedError"

definition project :: "('s, 'a) fts \<Rightarrow> int option \<Rightarrow> error + 'r" where
  "project self factor = Inl NotImplementedError"

definition simulate :: "('s, 'a) fts \<Rightarrow> 'q \<Rightarrow> error + 'r" where
  "simulate self state_sequence = Inl NotImplementedError"

definition sim :: "('s, 'a) fts \<Rightarrow> 'q \<Rightarrow> error + 'r" where
  "sim self args = simulate self args"

definition is_simulation :: "('s, 'a) fts \<Rightarrow> 'q \<Rightarrow> error + 'r" where
  "is_simulation self simulation = Inl NotImplementedError"

subsection \<open>The error kinds of the specification\<close>

text \<open>
  Modelled from the spec: the error taxonomy of spec 7, which names kinds of failure and
  no Python exception class.  A reading of the taxonomy assigns one of these kinds to
  each exception class the code raises.
\<close>

datatype spec_error =
    SpecDomainError | SpecDuplicateStateError | SpecUnknownStateError
  | TypeMismatchError | UnsupportedOperationError

text \<open>The exception a call ended with, if it ended with one.\<close>

definition raised :: "error + 'x \<Rightarrow> error option" where
  "raised r = (case r of Inl e \<Rightarrow> Some e | Inr x \<Rightarrow> None)"

text \<open>Sample operands: an empty closed system, an empty open system.\<close>

definition empty_fts :: "(atom, atom) fts" where
  "empty_fts = new_fts [] False"

definition empty_open_fts :: "(atom, atom) open_fts" where
  "empty_open_fts =
     \<lparr>open_name = [], open_atomic_propositions = {}, sys_actions = {}, env_actions = {},
      open_states = [], open_initial = {}\<rparr>"

subsection \<open>Well-formed systems\<close>

text \<open>
  The invariants of spec 3: the initial states are states, the label of a state is a
  subset of the AP set, the endpoints of a transition are states and its action belongs
  to the action set.
\<close>

definition well_formed :: "('s, 'a) fts \<Rightarrow> bool" where
  "well_formed ts \<longleftrightarrow>
     initial ts \<subseteq> set (states ts)
     \<and> (\<forall>s\<in>set (states ts). label_set ts s \<subseteq> atomic_propositions ts)
     \<and> (\<forall>(from_state, to_state, label_dict)\<in>set (transitions ts).
           from_state \<in> set (states ts) \<and> to_state \<in> set (states ts)
           \<and> (case label_dict of None \<Rightarrow> True | Some act \<Rightarrow> act \<in> actions ts))"

subsection \<open>\<^verbatim>\<open>__add__\<close> on objects\<close>

text \<open>
  \<^verbatim>\<open>__add__\<close> changes the containers of \<^verbatim>\<open>self\<close> (\<^verbatim>\<open>|=\<close>, \<^verbatim>\<open>states.add\<close>,
  \<^verbatim>\<open>states.label\<close>, \<^verbatim>\<open>transitions.add\<close>) and returns \<^verbatim>\<open>copy.copy(self)\<close>.  To tell the
  object from its contents, an object of the class is a handle: its identity and the
  address of the containers its attributes refer to; the store maps an address to the
  contents found there.  \<^verbatim>\<open>copy.copy\<close> makes a new object whose attributes refer to the
  same containers.
\<close>

record handle =
  ident :: nat
  containers :: nat

record ('s, 'a) store =
  cells :: "nat \<Rightarrow> ('s, 'a) fts"
  next_ident :: nat

definition contents :: "('s, 'a) store \<Rightarrow> handle \<Rightarrow> ('s, 'a) fts" where
  "contents h x = cells h (containers x)"

definition copy_copy :: "('s, 'a) store \<Rightarrow> handle \<Rightarrow> ('s, 'a) store \<times> handle" where
  "copy_copy h x =
     (h\<lparr>next_ident := Suc (next_ident h)\<rparr>, \<lparr>ident = next_ident h, containers = containers x\<rparr>)"

text \<open>
  \<^verbatim>\<open>self + other\<close> for two objects of the class: the contents of \<^verbatim>\<open>self\<close> are replaced by
  the merge, and the copy is returned.  (When the merge raises, only the exception is
  kept.)
\<close>

definition add_objects ::
  "('s, 'a) store \<Rightarrow> handle \<Rightarrow> handle \<Rightarrow> error + (('s, 'a) store \<times> handle)" where
  "add_objects h self other =
     and_then
       (fts_add (contents h self)
          (FiniteTransitionSystem (contents h other) :: ('s, 'a, unit) operand))
       (\<lambda>merged. Inr (copy_copy (h\<lparr>cells := (cells h)(containers self := merged)\<rparr>) self))"

text \<open>A later change through a handle, such as \<^verbatim>\<open>ts3.transitions.add(...)\<close> in the docstring.\<close>

definition change :: "('s, 'a) store \<Rightarrow> handle \<Rightarrow> (('s, 'a) fts \<Rightarrow> ('s, 'a) fts) \<Rightarrow> ('s, 'a) store" where
  "change h x f = h\<lparr>cells := (cells h)(containers x := f (contents h x))\<rparr>"

text \<open>Sample systems and a sample store for the merge.\<close>

definition sample_target :: "(atom, atom) fts" where
  "sample_target =
     \<lparr>name = ''A'', atomic_propositions = {AStr ''p''}, actions = {AStr ''a''},
      states = [AStr ''s'', AStr ''u''], initial = {AStr ''s''},
      label_of = [AStr ''s'' \<mapsto> {AStr ''p''}, AStr ''u'' \<mapsto> {AStr ''p''}],
      transitions = [(AStr ''s'', AStr ''u'', Some (AStr ''a''))], mutants = False\<rparr>"

definition sample_source :: "(atom, atom) fts" where
  "sample_source =
     \<lparr>name = ''B'', atomic_propositions = {AStr ''p'', AStr ''q''}, actions = {AStr ''b''},
      states = [AStr ''s'', AStr ''t'', AStr ''u'', AStr ''v''], initial = {AStr ''t''},
      label_of = [AStr ''s'' \<mapsto> {AStr ''q''}, AStr ''u'' \<mapsto> {}],
      transitions = [(AStr ''s'', AStr ''t'', Some (AStr ''b'')), (AStr ''t'', AStr ''s'', None)],
      mutants = False\<rparr>"

definition sample_store :: "(atom, atom) store" where
  "sample_store =
     \<lparr>cells = (\<lambda>c. if c = 0 then sample_target else if c = 1 then sample_source
                     else new_fts [] False),
      next_ident = 2\<rparr>"

definition target_handle :: handle where
  "target_handle = \<lparr>ident = 0, containers = 0\<rparr>"

definition source_handle :: handle where
  "source_handle = \<lparr>ident = 1, containers = 1\<rparr>"

section \<open>Builders\<close>

text \<open>
  Modelled from the spec: \<^verbatim>\<open>labeled_graphs.prepend_with\<close>, which is not under src/ (spec
  4.5: an optional prefix string is prepended to every state identifier, a purely
  textual transform; without a prefix the identifiers are left as they are).
\<close>

definition prepend_with :: "atom list \<Rightarrow> string option \<Rightarrow> atom list" where
  "prepend_with sts prepend_str =
     (case prepend_str of None \<Rightarrow> sts
      | Some p \<Rightarrow> map (\<lambda>s. AStr (p @ str s)) sts)"

text \<open>
  Modelled from the spec: \<^verbatim>\<open>labeled_graphs.str2singleton\<close>, which is not under src/ (spec
  4.5: a bare label value that is a single atomic-proposition identifier is treated as
  a singleton subset).
\<close>

fun str2singleton :: "pyobj \<Rightarrow> pyobj" where
  "str2singleton (Atom (AStr s)) = SetOf [AStr s]"
| "str2singleton ap_label = ap_label"

text \<open>
  Modelled from the spec: \<^verbatim>\<open>states.label\<close> again, as \<^verbatim>\<open>tuple2fts\<close> calls it, with the label
  as it comes out of \<^verbatim>\<open>str2singleton\<close> (spec 3: a state label is a subset of AP; a value
  that is not a set of propositions is outside the declared universe).
\<close>

fun states_label_obj :: "atom \<Rightarrow> pyobj \<Rightarrow> (atom, 'a) fts \<Rightarrow> error + (atom, 'a) fts" where
  "states_label_obj s (SetOf l) ts = states_label s (set l) ts"
| "states_label_obj s ap_label ts =
     (if s \<notin> set (states ts) then Inl UnknownStateError else Inl DomainError)"

text \<open>
  The tuple assignment \<^verbatim>\<open>(state, ap_label) = x\<close>.  A pair unpacks into its components; a
  set or a string unpacks when it has exactly two members or characters, and raises a
  \<^verbatim>\<open>ValueError\<close> otherwise; an integer or \<^verbatim>\<open>True\<close> is not iterable (\<^verbatim>\<open>TypeError\<close>).
\<close>

fun unpack2 :: "pyobj \<Rightarrow> error + (atom \<times> pyobj)" where
  "unpack2 (Tuple2 state ap_label) = Inr (state, ap_label)"
| "unpack2 (SetOf [a, b]) = Inr (a, Atom b)"
| "unpack2 (SetOf _) = Inl ValueError"
| "unpack2 (Atom (AStr [c, d])) = Inr (AStr [c], Atom (AStr [d]))"
| "unpack2 (Atom (AStr _)) = Inl ValueError"
| "unpack2 (Atom _) = Inl TypeError"

text \<open>\<^verbatim>\<open>isinstance(x, str)\<close>\<close>

fun is_str :: "pyobj \<Rightarrow> bool" where
  "is_str (Atom (AStr _)) = True"
| "is_str _ = False"

text \<open>
  The inner function \<^verbatim>\<open>pair_labels_with_states\<close> of \<^verbatim>\<open>tuple2fts\<close>.  \<^verbatim>\<open>state_labeling[0]\<close>
  raises an \<^verbatim>\<open>IndexError\<close> on an empty list; the \<^verbatim>\<open>try\<close> catches a \<^verbatim>\<open>ValueError\<close> only;
  \<^verbatim>\<open>zip\<close> makes pairs.
\<close>

definition pair_labels_with_states ::
  "atom list \<Rightarrow> pyobj list option \<Rightarrow> error + pyobj list option" where
  "pair_labels_with_states sts state_labeling =
     (case state_labeling of
        None \<Rightarrow> Inr None
      | Some [] \<Rightarrow> Inl IndexError
      | Some (first # rest) \<Rightarrow>
          (let state_label_pairs = True;
               state_label_pairs = (if is_str first then False else state_label_pairs)
           in and_then
                (case unpack2 first of
                   Inr (state, ap_label) \<Rightarrow> Inr state_label_pairs
                 | Inl e \<Rightarrow> if e = ValueError then Inr False else Inl e)
                (\<lambda>state_label_pairs.
                   if state_label_pairs then Inr (Some (first # rest))
                   else Inr (Some (map (\<lambda>(s, l). Tuple2 s l) (zip sts (first # rest)))))))"

text \<open>What \<^verbatim>\<open>S0\<close> can be: one state (a string or a value that is not iterable) or a list.\<close>

datatype initial_arg = OneState atom | StateList "atom list"

text \<open>An element of \<^verbatim>\<open>trans\<close>: a pair \<^verbatim>\<open>(from, to)\<close> or a triple \<^verbatim>\<open>(from, to, act)\<close>.\<close>

datatype trans_arg = Trans2 atom atom | Trans3 atom atom atom

text \<open>The labeling loop of \<^verbatim>\<open>tuple2fts\<close>.\<close>

fun label_states ::
  "string option \<Rightarrow> pyobj list \<Rightarrow> (atom, 'a) fts \<Rightarrow> error + (atom, 'a) fts" where
  "label_states prepend_str [] ts = Inr ts"
| "label_states prepend_str (x # xs) ts =
     (case unpack2 x of
        Inl e \<Rightarrow> Inl e
      | Inr (state, ap_label) \<Rightarrow>
          (let ap_label = str2singleton ap_label in
           case prepend_with [state] prepend_str of
             [state] \<Rightarrow>
               (case states_label_obj state ap_label ts of
                  Inl e \<Rightarrow> Inl e
                | Inr ts \<Rightarrow> label_states prepend_str xs ts)
           | _ \<Rightarrow> Inl ValueError))"

text \<open>The loop over \<^verbatim>\<open>transitions\<close> when \<^verbatim>\<open>actions is None\<close>.\<close>

fun add_unlabeled ::
  "string option \<Rightarrow> trans_arg list \<Rightarrow> (atom, 'a) fts \<Rightarrow> error + (atom, 'a) fts" where
  "add_unlabeled prepend_str [] ts = Inr ts"
| "add_unlabeled prepend_str (Trans2 from_state to_state # rest) ts =
     (case prepend_with [from_state, to_state] prepend_str of
        [from_state, to_state] \<Rightarrow>
          (case transitions_add from_state to_state ts of
             Inl e \<Rightarrow> Inl e
           | Inr ts \<Rightarrow> add_unlabeled prepend_str rest ts)
      | _ \<Rightarrow> Inl ValueError)"
| "add_unlabeled prepend_str (Trans3 from_state to_state act # rest) ts = Inl ValueError"

text \<open>The loop over \<^verbatim>\<open>transitions\<close> when actions are given.\<close>

fun add_labeled ::
  "string option \<Rightarrow> trans_arg list \<Rightarrow> (atom, atom) fts \<Rightarrow> error + (atom, atom) fts" where
  "add_labeled prepend_str [] ts = Inr ts"
| "add_labeled prepend_str (Trans3 from_state to_state act # rest) ts =
     (case prepend_with [from_state, to_state] prepend_str of
        [from_state, to_state] \<Rightarrow>
          (case transitions_add_labeled from_state to_state act ts of
             Inl e \<Rightarrow> Inl e
           | Inr ts \<Rightarrow> add_labeled prepend_str rest ts)
      | _ \<Rightarrow> Inl ValueError)"
| "add_labeled prepend_str (Trans2 from_state to_state # rest) ts = Inl ValueError"

text \<open>
  \<^verbatim>\<open>tuple2fts\<close>.  \<^verbatim>\<open>S\<close>, \<^verbatim>\<open>AP\<close>, \<^verbatim>\<open>Act\<close> and \<^verbatim>\<open>trans\<close> are lists, so the \<^verbatim>\<open>TypeError\<close> for an
  argument that is not iterable does not arise.  \<^verbatim>\<open>verbose\<close> only prints.
\<close>

definition tuple2fts ::
  "atom list \<Rightarrow> initial_arg \<Rightarrow> atom list \<Rightarrow> pyobj list option \<Rightarrow> atom list option
     \<Rightarrow> trans_arg list \<Rightarrow> string \<Rightarrow> string option \<Rightarrow> error + (atom, atom) fts" where
  "tuple2fts S S0 AP L Act trans' nm prepend_str =
     (let S0 = (case S0 of OneState s \<Rightarrow> [s] | StateList ss \<Rightarrow> ss);
          ap = AP
      in and_then (pair_labels_with_states S L)
       (\<lambda>state_labeling.
          let sts = prepend_with S prepend_str;
              initial_states = prepend_with S0 prepend_str;
              ts = new_fts nm False
          in and_then (states_add_from sts ts)
       (\<lambda>ts. and_then (initial_union (set initial_states) ts)
       (\<lambda>ts.
          let ts = ts\<lparr>atomic_propositions := atomic_propositions ts \<union> set ap\<rparr>
          in and_then
               (case state_labeling of
                  None \<Rightarrow> Inr ts
                | Some pairs \<Rightarrow> label_states prepend_str pairs ts)
       (\<lambda>ts.
          case Act of
            None \<Rightarrow> add_unlabeled prepend_str trans' ts
          | Some acts \<Rightarrow>
              add_labeled prepend_str trans' (ts\<lparr>actions := actions ts \<union> set acts\<rparr>))))))"

text \<open>\<^verbatim>\<open>line_labeled_with\<close>\<close>

definition line_labeled_with :: "pyobj list \<Rightarrow> int \<Rightarrow> error + (atom, atom) fts" where
  "line_labeled_with L m =
     (let n = int (length L);
          S = map AInt (py_range m (m + n));
          S0 = StateList []
      in and_then (negation_closure L)
       (\<lambda>AP.
          let Act = None;
              from_states = py_range m (m + n - 1);
              to_states = py_range (m + 1) (m + n);
              trans' = map (\<lambda>(f, t). Trans2 (AInt f) (AInt t)) (zip from_states to_states)
          in tuple2fts S S0 AP (Some L) Act trans' ''fts'' (Some ''s'')))"

text \<open>\<^verbatim>\<open>cycle_labeled_with\<close>\<close>

definition cycle_labeled_with :: "pyobj list \<Rightarrow> error + (atom, atom) fts" where
  "cycle_labeled_with L =
     and_then (line_labeled_with L 0)
       (\<lambda>ts. let last_state = AStr (''s'' @ str (AInt (int (length L) - 1)))
             in transitions_add last_state (AStr ''s0'') ts)"

subsection \<open>Notions used to state the properties of the builders\<close>

text \<open>A state identifier with the prefix \<open>p\<close> in front of its text.\<close>

definition prefixed :: "string \<Rightarrow> atom \<Rightarrow> atom" where
  "prefixed p s = AStr (p @ str s)"

text \<open>A state identifier as \<^verbatim>\<open>prepend_with\<close> leaves it: prefixed when a prefix is given.\<close>

definition renamed :: "string option \<Rightarrow> atom \<Rightarrow> atom" where
  "renamed prepend_str s = (case prepend_str of None \<Rightarrow> s | Some p \<Rightarrow> prefixed p s)"

text \<open>The initial states that an argument \<^verbatim>\<open>S0\<close> stands for.\<close>

fun initial_list :: "initial_arg \<Rightarrow> atom list" where
  "initial_list (OneState s) = [s]"
| "initial_list (StateList ss) = ss"

text \<open>The transition that an element of \<^verbatim>\<open>trans\<close> stands for, with renamed endpoints.\<close>

fun renamed_transition :: "string option \<Rightarrow> trans_arg \<Rightarrow> atom \<times> atom \<times> atom option" where
  "renamed_transition p (Trans2 f t) = (renamed p f, renamed p t, None)"
| "renamed_transition p (Trans3 f t a) = (renamed p f, renamed p t, Some a)"

text \<open>The name \<^verbatim>\<open>'s' + str(i)\<close> of the \<open>i\<close>-th state of a line or a cycle.\<close>

definition state_name :: "int \<Rightarrow> atom" where
  "state_name i = AStr (''s'' @ str_int i)"

text \<open>A list of strings as a labeling list.\<close>

definition strings :: "string list \<Rightarrow> pyobj list" where
  "strings ps = map (\<lambda>p. Atom (AStr p)) ps"

section \<open>Properties of \<^verbatim>\<open>negation_closure\<close>\<close>

lemma and_then_Inr [simp]: "and_then (Inr x) f = f x"
  by (simp add: and_then_def)

lemma and_then_Inl [simp]: "and_then (Inl e) f = Inl e"
  by (simp add: and_then_def)

lemma unique_Nil [simp]: "unique [] = []"
  by (simp add: unique_def)

lemma unique_snoc:
  "unique (xs @ [x]) = (if x \<in> set (unique xs) then unique xs else unique xs @ [x])"
  by (simp add: unique_def)

lemma set_unique [simp]: "set (unique xs) = set xs"
  by (induction xs rule: rev_induct) (auto simp: unique_snoc)

lemma distinct_unique [simp]: "distinct (unique xs)"
  by (induction xs rule: rev_induct) (auto simp: unique_snoc)

lemma first_seen_append_in:
  "a \<in> set xs \<Longrightarrow> first_seen (xs @ ys) a = first_seen xs a"
  unfolding first_seen_def by (induction xs) auto

lemma first_seen_less: "a \<in> set xs \<Longrightarrow> first_seen xs a < length xs"
  unfolding first_seen_def by (induction xs) auto

lemma first_seen_snoc_new:
  "x \<notin> set xs \<Longrightarrow> first_seen (xs @ [x]) x = length xs"
  unfolding first_seen_def by (induction xs) auto

lemma unique_first_seen_order:
  "sorted_wrt (\<lambda>a b. first_seen xs a < first_seen xs b) (unique xs)"
proof (induction xs rule: rev_induct)
  case Nil
  show ?case by simp
next
  case (snoc x xs)
  have old: "sorted_wrt (\<lambda>a b. first_seen (xs @ [x]) a < first_seen (xs @ [x]) b) (unique xs)"
    using snoc by (rule sorted_wrt_mono_rel [rotated]) (simp add: first_seen_append_in)
  show ?case
  proof (cases "x \<in> set xs")
    case True
    with old show ?thesis by (simp add: unique_snoc)
  next
    case False
    have "\<forall>a\<in>set xs. first_seen (xs @ [x]) a < first_seen (xs @ [x]) x"
      using False by (simp add: first_seen_snoc_new first_seen_append_in first_seen_less)
    with old False show ?thesis by (simp add: unique_snoc sorted_wrt_append)
  qed
qed

lemma closure_items_strings:
  "closure_items (map (\<lambda>p. Atom (AStr p)) ps)
     = Inr (concat (map (\<lambda>p. [AStr p, AStr (negate p)]) ps))"
  by (induction ps) simp_all

lemma negate_starts: "negate (CHR ''!'' # x) = x"
  by (simp add: negate_def)

lemma negate_other: "x = [] \<or> hd x \<noteq> CHR ''!'' \<Longrightarrow> negate x = CHR ''!'' # x"
  by (auto simp: negate_def)

text \<open>
  Claim C6.  For every list of proposition strings, \<^verbatim>\<open>negation_closure\<close> returns a list
  without duplicates whose elements are exactly: each input proposition \<open>p\<close>, its toggle,
  and the constant \<^verbatim>\<open>True\<close>.  The toggle of a string that starts with \<^verbatim>\<open>'!'\<close> is the string
  without that first character; the toggle of any other string (the empty one included)
  is the string with \<^verbatim>\<open>'!'\<close> put in front.  The elements stand in the order in which the
  comprehension first generates them.
\<close>

theorem negation_closure_strings:
  "\<exists>r. negation_closure (map (\<lambda>p. Atom (AStr p)) ps) = Inr r
     \<and> distinct r
     \<and> set r = (\<Union>p\<in>set ps. {AStr p, AStr (negate p)}) \<union> {ATrue}
     \<and> (\<forall>p\<in>set ps. AStr p \<in> set r
            \<and> (if p \<noteq> [] \<and> hd p = CHR ''!'' then AStr (tl p) \<in> set r
                else AStr (CHR ''!'' # p) \<in> set r))
     \<and> ATrue \<in> set r
     \<and> sorted_wrt (\<lambda>a b. first_seen (generated ps) a < first_seen (generated ps) b) r
     \<and> negate (CHR ''!'' # x) = x
     \<and> (y = [] \<or> hd y \<noteq> CHR ''!'' \<longrightarrow> negate y = CHR ''!'' # y)"
proof -
  let ?r = "unique (generated ps)"
  have 1: "negation_closure (map (\<lambda>p. Atom (AStr p)) ps) = Inr ?r"
    by (simp add: negation_closure_def closure_items_strings generated_def)
  have 2: "distinct ?r"
    by simp
  have 3: "set ?r = (\<Union>p\<in>set ps. {AStr p, AStr (negate p)}) \<union> {ATrue}"
    by (auto simp: generated_def)
  have 4: "\<forall>p\<in>set ps. AStr p \<in> set ?r
            \<and> (if p \<noteq> [] \<and> hd p = CHR ''!'' then AStr (tl p) \<in> set ?r
                else AStr (CHR ''!'' # p) \<in> set ?r)"
  proof
    fix p
    assume p: "p \<in> set ps"
    then have "AStr p \<in> set ?r" and n: "AStr (negate p) \<in> set ?r"
      unfolding 3 by blast+
    moreover have "AStr (tl p) \<in> set ?r" if "p \<noteq> [] \<and> hd p = CHR ''!''"
      using n that by (simp add: negate_def)
    moreover have "AStr (CHR ''!'' # p) \<in> set ?r" if "\<not> (p \<noteq> [] \<and> hd p = CHR ''!'')"
      using n that by (simp add: negate_def)
    ultimately show "AStr p \<in> set ?r
            \<and> (if p \<noteq> [] \<and> hd p = CHR ''!'' then AStr (tl p) \<in> set ?r
                else AStr (CHR ''!'' # p) \<in> set ?r)"
      by simp
  qed
  have 5: "ATrue \<in> set ?r"
    unfolding 3 by simp
  have 6: "sorted_wrt (\<lambda>a b. first_seen (generated ps) a < first_seen (generated ps) b) ?r"
    by (rule unique_first_seen_order)
  have 7: "negate (CHR ''!'' # x) = x"
    by (rule negate_starts)
  have 8: "y = [] \<or> hd y \<noteq> CHR ''!'' \<longrightarrow> negate y = CHR ''!'' # y"
    by (simp add: negate_other)
  from 1 2 3 4 5 6 7 8 show ?thesis
    by (intro exI [of _ ?r] conjI)
qed

theorem negation_closure_strings_witness:
  "(\<exists>r. negation_closure [Atom (AStr ''p''), Atom (AStr ''q'')] = Inr r
      \<and> distinct r
      \<and> set r = {AStr ''p'', AStr ''!p'', AStr ''q'', AStr ''!q'', ATrue}
      \<and> AStr ''!p'' \<in> set r \<and> AStr ''!q'' \<in> set r)
   \<and> negate ''door'' = ''!door''
   \<and> negate ''!p'' = ''p''
   \<and> negation_closure [Atom (AStr ''p''), Atom (AStr ''q'')]
       = Inr [AStr ''p'', AStr ''!p'', AStr ''q'', AStr ''!q'', ATrue]
   \<and> negation_closure [Atom (AStr ''q''), Atom (AStr ''p'')]
       = Inr [AStr ''q'', AStr ''!q'', AStr ''p'', AStr ''!p'', ATrue]
   \<and> negation_closure [Atom (AStr ''!p''), Atom (AStr ''p'')]
       = Inr [AStr ''!p'', AStr ''p'', ATrue]
   \<and> negation_closure [Atom (AStr ''a''), Atom (AStr ''door'')]
       = Inr [AStr ''a'', AStr ''!a'', AStr ''door'', AStr ''!door'', ATrue]"
proof -
  from negation_closure_strings [of "[''p'', ''q'']" "''p''" "''door''"]
  obtain r where run: "negation_closure [Atom (AStr ''p''), Atom (AStr ''q'')] = Inr r"
    and d: "distinct r"
    and st: "set r = (\<Union>p\<in>set [''p'', ''q'']. {AStr p, AStr (negate p)}) \<union> {ATrue}"
    and tg: "\<forall>p\<in>set [''p'', ''q'']. AStr p \<in> set r
            \<and> (if p \<noteq> [] \<and> hd p = CHR ''!'' then AStr (tl p) \<in> set r
                else AStr (CHR ''!'' # p) \<in> set r)"
    and n1: "negate (CHR ''!'' # ''p'') = ''p''"
    and n2: "''door'' = [] \<or> hd ''door'' \<noteq> CHR ''!'' \<longrightarrow> negate ''door'' = CHR ''!'' # ''door''"
    by auto
  from tg have t1: "AStr ''!p'' \<in> set r" and t2: "AStr ''!q'' \<in> set r"
    by simp_all
  from st have st': "set r = {AStr ''p'', AStr ''!p'', AStr ''q'', AStr ''!q'', ATrue}"
    by (auto simp: negate_def)
  from n2 have n2': "negate ''door'' = ''!door''"
    by simp
  from n1 have n1': "negate ''!p'' = ''p''"
    by simp
  have a: "\<exists>r. negation_closure [Atom (AStr ''p''), Atom (AStr ''q'')] = Inr r
      \<and> distinct r
      \<and> set r = {AStr ''p'', AStr ''!p'', AStr ''q'', AStr ''!q'', ATrue}
      \<and> AStr ''!p'' \<in> set r \<and> AStr ''!q'' \<in> set r"
    using run d st' t1 t2 by (intro exI [of _ r] conjI)
  have b: "negation_closure [Atom (AStr ''p''), Atom (AStr ''q'')]
       = Inr [AStr ''p'', AStr ''!p'', AStr ''q'', AStr ''!q'', ATrue]"
    by (simp add: negation_closure_def negate_def unique_def)
  have c: "negation_closure [Atom (AStr ''q''), Atom (AStr ''p'')]
       = Inr [AStr ''q'', AStr ''!q'', AStr ''p'', AStr ''!p'', ATrue]"
    by (simp add: negation_closure_def negate_def unique_def)
  have e: "negation_closure [Atom (AStr ''!p''), Atom (AStr ''p'')]
       = Inr [AStr ''!p'', AStr ''p'', ATrue]"
    by (simp add: negation_closure_def negate_def unique_def)
  have f: "negation_closure [Atom (AStr ''a''), Atom (AStr ''door'')]
       = Inr [AStr ''a'', AStr ''!a'', AStr ''door'', AStr ''!door'', ATrue]"
    by (simp add: negation_closure_def negate_def unique_def)
  from a n2' n1' b c e f show ?thesis
    by (intro conjI)
qed

section \<open>Products, type guards and deferred operations\<close>

lemma cartesian_Times: "cartesian A B = A \<times> B"
  by (simp add: cartesian_def)

lemma actions_tensor_product [simp]: "actions (tensor_product a b p) = actions p"
  by (simp add: tensor_product_def)

lemma actions_cartesian_product [simp]: "actions (cartesian_product a b p) = actions p"
  by (simp add: cartesian_product_def)

lemma actions_sync_prod': "actions (sync_prod' T1 T2) = actions T1 \<times> actions T2"
  by (simp add: sync_prod'_def Let_def new_fts_def cartesian_Times)

text \<open>
  Claim C1.  The synchronous product of two transition systems is a transition system
  whose action set is the Cartesian product of the operands' action sets, so it has as
  many actions as the product of their numbers of actions.  (This holds for empty
  alphabets too.)
\<close>

theorem sync_prod_actions_cartesian:
  "sync_prod f T1 (FiniteTransitionSystem T2) = Inr (ProductTS (sync_prod' T1 T2))
   \<and> fts_mul f T1 (FiniteTransitionSystem T2) = Inr (ProductTS (sync_prod' T1 T2))
   \<and> actions (sync_prod' T1 T2) = actions T1 \<times> actions T2
   \<and> card (actions (sync_prod' T1 T2)) = card (actions T1) * card (actions T2)"
  by (simp add: sync_prod_def fts_mul_def actions_sync_prod' card_cartesian_product)

theorem sync_prod_actions_cartesian_witness:
  "actions (sync_prod' (empty_fts\<lparr>actions := {AStr ''a'', AStr ''b''}\<rparr>)
                       (empty_fts\<lparr>actions := {AStr ''c''}\<rparr>))
     = {(AStr ''a'', AStr ''c''), (AStr ''b'', AStr ''c'')}
   \<and> card (actions (sync_prod' (empty_fts\<lparr>actions := {AStr ''a'', AStr ''b''}\<rparr>)
                              (empty_fts\<lparr>actions := {AStr ''c''}\<rparr>))) = 2"
proof -
  let ?A = "empty_fts\<lparr>actions := {AStr ''a'', AStr ''b''}\<rparr>"
  let ?B = "empty_fts\<lparr>actions := {AStr ''c''}\<rparr>"
  note th = sync_prod_actions_cartesian [of "\<lambda>ts ba. Inr ()" ?A ?B]
  have "actions (sync_prod' ?A ?B) = actions ?A \<times> actions ?B"
    using th by (rule conjunct2 [THEN conjunct2, THEN conjunct1])
  then have 1: "actions (sync_prod' ?A ?B) = {(AStr ''a'', AStr ''c''), (AStr ''b'', AStr ''c'')}"
    by auto
  have "card (actions (sync_prod' ?A ?B)) = card (actions ?A) * card (actions ?B)"
    using th by (rule conjunct2 [THEN conjunct2, THEN conjunct2])
  then have 2: "card (actions (sync_prod' ?A ?B)) = 2"
    by simp
  from 1 2 show ?thesis ..
qed

text \<open>
  Claim C2.  The asynchronous product of two transition systems is a transition system
  whose action set is the union of the operands' action sets, so it has as many actions
  as that union.
\<close>

theorem async_prod_actions_union:
  "\<exists>P. async_prod T1 (FiniteTransitionSystem T2) = Inr P
     \<and> fts_or T1 (FiniteTransitionSystem T2) = Inr P
     \<and> actions P = actions T1 \<union> actions T2
     \<and> card (actions P) = card (actions T1 \<union> actions T2)"
  by (simp add: async_prod_def fts_or_def Let_def new_fts_def)

theorem async_prod_actions_union_witness:
  "\<exists>P. async_prod (empty_fts\<lparr>actions := {AStr ''a'', AStr ''b''}\<rparr>)
         (FiniteTransitionSystem (empty_fts\<lparr>actions := {AStr ''b'', AStr ''c''}\<rparr>)
            :: (atom, atom, unit) operand) = Inr P
     \<and> actions P = {AStr ''a'', AStr ''b'', AStr ''c''}
     \<and> card (actions P) = 3"
proof -
  let ?A = "empty_fts\<lparr>actions := {AStr ''a'', AStr ''b''}\<rparr>"
  let ?B = "empty_fts\<lparr>actions := {AStr ''b'', AStr ''c''}\<rparr>"
  let ?op = "FiniteTransitionSystem ?B :: (atom, atom, unit) operand"
  from async_prod_actions_union [of ?A ?B]
  obtain P where p: "async_prod ?A ?op = Inr P"
    and a: "actions P = actions ?A \<union> actions ?B"
    by (elim exE conjE)
  have "actions ?A \<union> actions ?B = {AStr ''a'', AStr ''b'', AStr ''c''}"
    by (simp add: insert_commute)
  with a have 1: "actions P = {AStr ''a'', AStr ''b'', AStr ''c''}"
    by simp
  have 2: "card {AStr ''a'', AStr ''b'', AStr ''c''} = 3"
    by simp
  from p 1 2 show ?thesis
    by (intro exI [of _ P]) simp
qed

text \<open>
  Claim C5.  Each of the deferred operations \<^verbatim>\<open>intersection\<close>, \<^verbatim>\<open>difference\<close>,
  \<^verbatim>\<open>composition\<close>, \<^verbatim>\<open>project\<close>, \<^verbatim>\<open>simulate\<close> (and its alias \<^verbatim>\<open>sim\<close>) and
  \<^verbatim>\<open>is_simulation\<close> ends with a \<^verbatim>\<open>NotImplementedError\<close> on every system and every
  argument, and so never returns a value.
\<close>

theorem deferred_operations_raise:
  "intersection self = Inl NotImplementedError
   \<and> difference self = Inl NotImplementedError
   \<and> composition self = Inl NotImplementedError
   \<and> project self factor = Inl NotImplementedError
   \<and> simulate self state_sequence = Inl NotImplementedError
   \<and> sim self state_sequence = Inl NotImplementedError
   \<and> is_simulation self simulation = Inl NotImplementedError
   \<and> intersection self \<noteq> Inr r1 \<and> difference self \<noteq> Inr r2 \<and> composition self \<noteq> Inr r3
   \<and> project self factor \<noteq> Inr r4 \<and> simulate self state_sequence \<noteq> Inr r5
   \<and> is_simulation self simulation \<noteq> Inr r6"
  by (simp add: intersection_def difference_def composition_def project_def
      simulate_def sim_def is_simulation_def)

theorem deferred_operations_raise_witness:
  "(intersection empty_fts :: error + unit) = Inl NotImplementedError
   \<and> (difference empty_fts :: error + unit) = Inl NotImplementedError
   \<and> (composition empty_fts :: error + unit) = Inl NotImplementedError
   \<and> (project empty_fts (Some 0) :: error + unit) = Inl NotImplementedError
   \<and> (simulate empty_fts ''random'' :: error + unit) = Inl NotImplementedError
   \<and> (is_simulation empty_fts () :: error + unit) = Inl NotImplementedError"
proof (intro conjI)
  show "(intersection empty_fts :: error + unit) = Inl NotImplementedError"
    by (rule deferred_operations_raise [THEN conjunct1])
  show "(difference empty_fts :: error + unit) = Inl NotImplementedError"
    by (rule deferred_operations_raise [THEN conjunct2, THEN conjunct1])
  show "(composition empty_fts :: error + unit) = Inl NotImplementedError"
    by (rule deferred_operations_raise [THEN conjunct2, THEN conjunct2, THEN conjunct1])
  show "(project empty_fts (Some 0) :: error + unit) = Inl NotImplementedError"
    by (rule deferred_operations_raise [THEN conjunct2, THEN conjunct2, THEN conjunct2, THEN conjunct1])
  show "(simulate empty_fts ''random'' :: error + unit) = Inl NotImplementedError"
    by (rule deferred_operations_raise [THEN conjunct2, THEN conjunct2, THEN conjunct2, THEN conjunct2, THEN conjunct1])
  show "(is_simulation empty_fts () :: error + unit) = Inl NotImplementedError"
    by (rule deferred_operations_raise [THEN conjunct2, THEN conjunct2, THEN conjunct2, THEN conjunct2, THEN conjunct2, THEN conjunct2, THEN conjunct1])
qed

text \<open>
  Claim C4, as stated, fails.  The claim gives the asynchronous product with an
  automaton one kind of error (UnsupportedOperationError) and a product of a closed with
  an open system another (TypeMismatchError).  The code raises the same exception,
  \<^verbatim>\<open>TypeError\<close>, for both operands of \<^verbatim>\<open>async_prod\<close>, so no assignment of kinds to
  exception classes gives the two calls the two kinds; \<^verbatim>\<open>sync_prod\<close> raises a bare
  \<^verbatim>\<open>Exception\<close> for an open system.
\<close>

theorem operand_error_kinds_counterexample:
  "async_prod empty_fts (BuchiAutomaton () :: (atom, atom, unit) operand) = Inl TypeError
   \<and> async_prod empty_fts
        (OpenFiniteTransitionSystem empty_open_fts :: (atom, atom, unit) operand)
       = Inl TypeError
   \<and> (sync_prod (\<lambda>ts ba. Inr ()) empty_fts
        (OpenFiniteTransitionSystem empty_open_fts :: (atom, atom, unit) operand)
       :: error + ((atom \<times> atom, atom \<times> atom) fts, unit) product) = Inl PyException
   \<and> \<not> (\<exists>kind :: error \<Rightarrow> spec_error.
          map_option kind (raised
            (async_prod empty_fts (BuchiAutomaton () :: (atom, atom, unit) operand)))
            = Some UnsupportedOperationError
        \<and> map_option kind (raised
            (async_prod empty_fts
              (OpenFiniteTransitionSystem empty_open_fts :: (atom, atom, unit) operand)))
            = Some TypeMismatchError)"
  by (simp add: async_prod_def sync_prod_def raised_def)

text \<open>
  Claim C4, amended.  \<^verbatim>\<open>async_prod\<close> and the merge \<^verbatim>\<open>__add__\<close> end with a \<^verbatim>\<open>TypeError\<close>
  for every operand that is not a \<^verbatim>\<open>FiniteTransitionSystem\<close> (an automaton, an open
  system, anything else); \<^verbatim>\<open>sync_prod\<close> hands an automaton to the automata module and
  ends with a bare \<^verbatim>\<open>Exception\<close> for an open system or any other operand.  The result
  does not depend on the left operand: the test is the first thing each function does.
\<close>

theorem operand_type_errors:
  "async_prod self (BuchiAutomaton ba) = Inl TypeError
   \<and> async_prod self (OpenFiniteTransitionSystem ofts) = Inl TypeError
   \<and> async_prod self OtherObject = Inl TypeError
   \<and> fts_add self (BuchiAutomaton ba) = Inl TypeError
   \<and> fts_add self (OpenFiniteTransitionSystem ofts) = Inl TypeError
   \<and> fts_add self OtherObject = Inl TypeError
   \<and> sync_prod f self (OpenFiniteTransitionSystem ofts) = Inl PyException
   \<and> sync_prod f self OtherObject = Inl PyException
   \<and> sync_prod f self (BuchiAutomaton ba)
       = and_then (f self ba) (\<lambda>p. Inr (ProductBA p))"
  by (simp add: async_prod_def fts_add_def sync_prod_def)

theorem operand_type_errors_witness:
  "async_prod empty_fts (BuchiAutomaton () :: (atom, atom, unit) operand) = Inl TypeError
   \<and> async_prod empty_fts
        (OpenFiniteTransitionSystem empty_open_fts :: (atom, atom, unit) operand) = Inl TypeError
   \<and> fts_add empty_fts (BuchiAutomaton () :: (atom, atom, unit) operand) = Inl TypeError
   \<and> fts_add empty_fts
        (OpenFiniteTransitionSystem empty_open_fts :: (atom, atom, unit) operand) = Inl TypeError"
  using operand_type_errors [of empty_fts "()" empty_open_fts]
  by blast

section \<open>Merging\<close>

lemma states_add_absent:
  "s \<notin> set (states ts) \<Longrightarrow> states_add s ts = Inr (ts\<lparr>states := states ts @ [s]\<rparr>)"
  by (simp add: states_add_def)

lemma add_states_result:
  assumes "\<forall>s\<in>set ss. \<forall>l. lab s = Some l \<longrightarrow> l \<subseteq> atomic_propositions self"
  shows "\<exists>r. add_states (map (\<lambda>s. (s, lab s)) ss) self = Inr r
           \<and> set (states r) = set (states self) \<union> set ss
           \<and> label_of r = (\<lambda>s. if s \<in> set ss
                                then (case lab s of None \<Rightarrow> label_of self s | Some l \<Rightarrow> Some l)
                                else label_of self s)
           \<and> atomic_propositions r = atomic_propositions self
           \<and> actions r = actions self
           \<and> initial r = initial self
           \<and> transitions r = transitions self
           \<and> name r = name self
           \<and> mutants r = mutants self"
  using assms
proof (induction ss arbitrary: self)
  case Nil
  show ?case by simp
next
  case (Cons x ss)
  define self1 where "self1 = (if x \<notin> set (states self) then self\<lparr>states := states self @ [x]\<rparr> else self)"
  have s1: "(if x \<notin> set (states self) then states_add x self else Inr self) = Inr self1"
    by (simp add: self1_def states_add_absent)
  have in1: "x \<in> set (states self1)" and st1: "set (states self1) = insert x (set (states self))"
    by (auto simp: self1_def)
  have rest1: "atomic_propositions self1 = atomic_propositions self" "actions self1 = actions self"
    "initial self1 = initial self" "transitions self1 = transitions self" "name self1 = name self"
    "mutants self1 = mutants self" "label_of self1 = label_of self"
    by (simp_all add: self1_def)
  define self2 where "self2 = (case lab x of None \<Rightarrow> self1
                                | Some ap \<Rightarrow> self1\<lparr>label_of := (label_of self1)(x \<mapsto> ap)\<rparr>)"
  have s2: "(case lab x of None \<Rightarrow> Inr self1 | Some ap \<Rightarrow> states_label x ap self1) = Inr self2"
  proof (cases "lab x")
    case None
    then show ?thesis by (simp add: self2_def)
  next
    case (Some ap)
    with Cons.prems have "ap \<subseteq> atomic_propositions self1"
      by (simp add: rest1)
    with Some in1 show ?thesis
      by (simp add: self2_def states_label_def)
  qed
  have st2: "set (states self2) = insert x (set (states self))"
    by (simp add: self2_def st1 split: option.split)
  have rest2: "atomic_propositions self2 = atomic_propositions self" "actions self2 = actions self"
    "initial self2 = initial self" "transitions self2 = transitions self" "name self2 = name self"
    "mutants self2 = mutants self"
    by (simp_all add: self2_def rest1 split: option.split)
  have lab2: "label_of self2 = (case lab x of None \<Rightarrow> label_of self
                                 | Some ap \<Rightarrow> (label_of self)(x \<mapsto> ap))"
    by (simp add: self2_def rest1 split: option.split)
  have "\<forall>s\<in>set ss. \<forall>l. lab s = Some l \<longrightarrow> l \<subseteq> atomic_propositions self2"
    using Cons.prems by (simp add: rest2)
  from Cons.IH [OF this] obtain r where
    r: "add_states (map (\<lambda>s. (s, lab s)) ss) self2 = Inr r"
    and str: "set (states r) = set (states self2) \<union> set ss"
    and labr: "label_of r = (\<lambda>s. if s \<in> set ss
                                then (case lab s of None \<Rightarrow> label_of self2 s | Some l \<Rightarrow> Some l)
                                else label_of self2 s)"
    and restr: "atomic_propositions r = atomic_propositions self2" "actions r = actions self2"
      "initial r = initial self2" "transitions r = transitions self2" "name r = name self2"
      "mutants r = mutants self2"
    by blast
  have "add_states (map (\<lambda>s. (s, lab s)) (x # ss)) self = Inr r"
    using s1 s2 r by simp
  moreover have "set (states r) = set (states self) \<union> set (x # ss)"
    using str st2 by auto
  moreover have "label_of r = (\<lambda>s. if s \<in> set (x # ss)
                                then (case lab s of None \<Rightarrow> label_of self s | Some l \<Rightarrow> Some l)
                                else label_of self s)"
    unfolding labr lab2 by (auto simp: fun_eq_iff split: option.split)
  ultimately show ?case
    using restr rest2 by simp
qed

lemma add_transitions_result:
  assumes "\<forall>(from_state, to_state, label_dict)\<in>set ts.
             from_state \<in> set (states self) \<and> to_state \<in> set (states self)
             \<and> (case label_dict of None \<Rightarrow> True | Some act \<Rightarrow> act \<in> actions self)"
  shows "add_transitions ts self = Inr (self\<lparr>transitions := transitions self @ ts\<rparr>)"
  using assms
proof (induction ts arbitrary: self)
  case Nil
  show ?case by simp
next
  case (Cons t ts)
  obtain f g a where t: "t = (f, g, a)"
    by (cases t)
  let ?self1 = "self\<lparr>transitions := transitions self @ [t]\<rparr>"
  have step: "(case a of None \<Rightarrow> transitions_add f g self
               | Some v \<Rightarrow> transitions_add_labeled f g v self) = Inr ?self1"
    using Cons.prems
    by (cases a) (simp_all add: t transitions_add_def transitions_add_labeled_def)
  have "\<forall>(from_state, to_state, label_dict)\<in>set ts.
          from_state \<in> set (states ?self1) \<and> to_state \<in> set (states ?self1)
          \<and> (case label_dict of None \<Rightarrow> True | Some act \<Rightarrow> act \<in> actions ?self1)"
    using Cons.prems by (auto split: option.splits)
  from Cons.IH [OF this] step show ?case
    by (simp add: t)
qed

lemma fts_add_result:
  fixes self other :: "('s, 'a) fts"
  assumes wf: "well_formed other"
  shows "\<exists>r. fts_add self (FiniteTransitionSystem other :: ('s, 'a, 'c) operand) = Inr r
           \<and> atomic_propositions r = atomic_propositions self \<union> atomic_propositions other
           \<and> actions r = actions self \<union> actions other
           \<and> set (states r) = set (states self) \<union> set (states other)
           \<and> initial r = initial self \<union> initial other
           \<and> label_of r = (\<lambda>s. if s \<in> set (states other)
                                then (case label_of other s of None \<Rightarrow> label_of self s
                                      | Some l \<Rightarrow> Some l)
                                else label_of self s)
           \<and> transitions r = transitions self @ transitions other
           \<and> name r = name self
           \<and> mutants r = mutants self"
proof -
  define self0 where "self0 = self\<lparr>atomic_propositions :=
      atomic_propositions self \<union> atomic_propositions other\<rparr>\<lparr>actions := actions self \<union> actions other\<rparr>"
  have "\<forall>s\<in>set (states other). \<forall>l. label_of other s = Some l \<longrightarrow> l \<subseteq> atomic_propositions self0"
  proof (intro ballI allI impI)
    fix s l
    assume "s \<in> set (states other)" and "label_of other s = Some l"
    with wf have "l \<subseteq> atomic_propositions other"
      by (fastforce simp: well_formed_def label_set_def)
    then show "l \<subseteq> atomic_propositions self0"
      by (auto simp: self0_def)
  qed
  from add_states_result [OF this] obtain r1 where
    r1: "add_states (states_find other) self0 = Inr r1"
    and st1: "set (states r1) = set (states self0) \<union> set (states other)"
    and lab1: "label_of r1 = (\<lambda>s. if s \<in> set (states other)
                                then (case label_of other s of None \<Rightarrow> label_of self0 s
                                      | Some l \<Rightarrow> Some l)
                                else label_of self0 s)"
    and rest1: "atomic_propositions r1 = atomic_propositions self0" "actions r1 = actions self0"
      "initial r1 = initial self0" "transitions r1 = transitions self0" "name r1 = name self0"
      "mutants r1 = mutants self0"
    unfolding states_find_def by blast
  define r2 where "r2 = r1\<lparr>initial := initial r1 \<union> initial other\<rparr>"
  have "initial other \<subseteq> set (states r1)"
    using wf st1 by (auto simp: well_formed_def)
  then have i2: "initial_union (initial other) r1 = Inr r2"
    by (simp add: initial_union_def r2_def)
  have "\<forall>(from_state, to_state, label_dict)\<in>set (transitions other).
          from_state \<in> set (states r2) \<and> to_state \<in> set (states r2)
          \<and> (case label_dict of None \<Rightarrow> True | Some act \<Rightarrow> act \<in> actions r2)"
    using wf st1 rest1
    by (auto simp: well_formed_def r2_def self0_def split: option.splits)
  from add_transitions_result [OF this]
  have t3: "add_transitions (transitions other) r2
              = Inr (r2\<lparr>transitions := transitions r2 @ transitions other\<rparr>)" .
  have "fts_add self (FiniteTransitionSystem other :: ('s, 'a, 'c) operand)
          = Inr (r2\<lparr>transitions := transitions r2 @ transitions other\<rparr>)"
    using r1 i2 t3 by (simp add: fts_add_def Let_def self0_def)
  moreover have "label_of r1 = (\<lambda>s. if s \<in> set (states other)
                                then (case label_of other s of None \<Rightarrow> label_of self s
                                      | Some l \<Rightarrow> Some l)
                                else label_of self s)"
  proof -
    have l0: "label_of self0 = label_of self"
      by (simp add: self0_def)
    show ?thesis
      unfolding lab1 l0 by (rule refl)
  qed
  ultimately show ?thesis
    using st1 rest1 by (simp add: r2_def self0_def)
qed

lemma well_formed_sample_source: "well_formed sample_source"
  by (simp add: well_formed_def sample_source_def label_set_def)

text \<open>
  Claim C3, as stated, fails.  The claim has the target's label overwritten exactly when
  the source's label is non-empty.  In the sample systems the source labels the state
  \<^verbatim>\<open>u\<close> with the empty set of propositions and the target labels it \<^verbatim>\<open>{'p'}\<close>; the label dict
  \<^verbatim>\<open>{'ap': set()}\<close> of the source state is true for \<^verbatim>\<open>if label:\<close>, and the merge replaces the
  target's label by the empty set.
\<close>

theorem merge_empty_label_counterexample:
  "AStr ''u'' \<in> set (states sample_source)
   \<and> label_of sample_source (AStr ''u'') = Some {}
   \<and> label_set sample_source (AStr ''u'') = {}
   \<and> label_of sample_target (AStr ''u'') = Some {AStr ''p''}
   \<and> (\<exists>r. fts_add sample_target
              (FiniteTransitionSystem sample_source :: (atom, atom, unit) operand) = Inr r
          \<and> label_of r (AStr ''u'') = Some {}
          \<and> label_of r (AStr ''u'') \<noteq> label_of sample_target (AStr ''u''))"
proof -
  from fts_add_result [OF well_formed_sample_source, of sample_target]
  obtain r where
    r: "fts_add sample_target
          (FiniteTransitionSystem sample_source :: (atom, atom, unit) operand) = Inr r"
    and lab: "label_of r = (\<lambda>s. if s \<in> set (states sample_source)
                                then (case label_of sample_source s of
                                        None \<Rightarrow> label_of sample_target s
                                      | Some l \<Rightarrow> Some l)
                                else label_of sample_target s)"
    by blast
  have 1: "AStr ''u'' \<in> set (states sample_source)"
    and 2: "label_of sample_source (AStr ''u'') = Some {}"
    and 3: "label_set sample_source (AStr ''u'') = {}"
    and 4: "label_of sample_target (AStr ''u'') = Some {AStr ''p''}"
    by (simp_all add: sample_source_def sample_target_def label_set_def)
  have 5: "label_of r (AStr ''u'') = Some {}"
    unfolding lab using 1 2 by simp
  have 6: "label_of r (AStr ''u'') \<noteq> label_of sample_target (AStr ''u'')"
    unfolding 5 4 by simp
  from r 5 6 have "\<exists>r. fts_add sample_target
              (FiniteTransitionSystem sample_source :: (atom, atom, unit) operand) = Inr r
          \<and> label_of r (AStr ''u'') = Some {}
          \<and> label_of r (AStr ''u'') \<noteq> label_of sample_target (AStr ''u'')"
    by (intro exI [of _ r] conjI)
  with 1 2 3 4 show ?thesis
    by (intro conjI)
qed

text \<open>
  Claim C3, amended.  When a well-formed source system is merged into a target, the
  merge succeeds; the states of the result are those of the target and those of the
  source (every source state absent from the target is added); the label of a source
  state is overwritten with the source's label exactly when the source state has a label
  (its label dict is not empty), a label that is the empty set of propositions included;
  so a state that both systems label carries the source's label.  Every other label is
  the target's.
\<close>

theorem merge_states_and_labels:
  fixes self other :: "('s, 'a) fts"
  assumes "well_formed other"
  shows "\<exists>r. fts_add self (FiniteTransitionSystem other :: ('s, 'a, 'c) operand) = Inr r
           \<and> set (states r) = set (states self) \<union> set (states other)
           \<and> (\<forall>s\<in>set (states other). \<forall>l. label_of other s = Some l \<longrightarrow> label_of r s = Some l)
           \<and> (\<forall>s\<in>set (states other). label_of other s = None \<longrightarrow> label_of r s = label_of self s)
           \<and> (\<forall>s. s \<notin> set (states other) \<longrightarrow> label_of r s = label_of self s)"
proof -
  from fts_add_result [OF assms, of self] obtain r where
    r: "fts_add self (FiniteTransitionSystem other :: ('s, 'a, 'c) operand) = Inr r"
    and st: "set (states r) = set (states self) \<union> set (states other)"
    and lab: "label_of r = (\<lambda>s. if s \<in> set (states other)
                                then (case label_of other s of None \<Rightarrow> label_of self s
                                      | Some l \<Rightarrow> Some l)
                                else label_of self s)"
    by blast
  from r st show ?thesis
    by (intro exI [of _ r]) (simp add: lab)
qed

theorem merge_states_and_labels_witness:
  "well_formed sample_source
   \<and> (\<exists>r. fts_add sample_target (FiniteTransitionSystem sample_source :: (atom, atom, unit) operand) = Inr r
        \<and> set (states r) = {AStr ''s'', AStr ''t'', AStr ''u'', AStr ''v''}
        \<and> label_of sample_target (AStr ''s'') = Some {AStr ''p''}
        \<and> label_of r (AStr ''s'') = Some {AStr ''q''}
        \<and> label_of r (AStr ''u'') = Some {}
        \<and> label_of r (AStr ''t'') = None)"
proof -
  let ?op = "FiniteTransitionSystem sample_source :: (atom, atom, unit) operand"
  from merge_states_and_labels [OF well_formed_sample_source, of sample_target]
  obtain r where r: "fts_add sample_target ?op = Inr r"
    and st: "set (states r) = set (states sample_target) \<union> set (states sample_source)"
    and some: "\<forall>s\<in>set (states sample_source). \<forall>l.
                 label_of sample_source s = Some l \<longrightarrow> label_of r s = Some l"
    and none: "\<forall>s\<in>set (states sample_source).
                 label_of sample_source s = None \<longrightarrow> label_of r s = label_of sample_target s"
    by (elim exE conjE)
  have 1: "set (states r) = {AStr ''s'', AStr ''t'', AStr ''u'', AStr ''v''}"
    unfolding st by (auto simp: sample_target_def sample_source_def)
  have 2: "label_of r (AStr ''s'') = Some {AStr ''q''}"
    using some [rule_format, of "AStr ''s''" "{AStr ''q''}"]
    by (simp add: sample_source_def)
  have 3: "label_of r (AStr ''u'') = Some {}"
    using some [rule_format, of "AStr ''u''" "{}"]
    by (simp add: sample_source_def)
  have 4: "label_of r (AStr ''t'') = None"
    using none [rule_format, of "AStr ''t''"]
    by (simp add: sample_source_def sample_target_def)
  have 5: "label_of sample_target (AStr ''s'') = Some {AStr ''p''}"
    by (simp add: sample_target_def)
  from r 1 2 3 4 5 well_formed_sample_source show ?thesis
    by (intro conjI exI [of _ r]) simp_all
qed

text \<open>
  Claim C9.  Merging the object \<open>other\<close> (well-formed) into the object \<open>self\<close> succeeds
  and changes the contents of \<open>self\<close> in place: after the call the target holds the union
  of the AP sets, of the action sets, of the states and of the initial states, the
  labels of the source over those of the target, and the transitions of both.  The
  object returned is a new handle on the containers of \<open>self\<close> (a shallow copy): it shows
  the same contents as the target, a later change made through it is seen through the
  target, and nothing else in the store is changed.
\<close>

theorem add_objects_in_place:
  fixes h :: "('s, 'a) store"
  assumes "well_formed (contents h other)"
  shows "\<exists>h' r. add_objects h self other = Inr (h', r)
     \<and> containers r = containers self
     \<and> ident r = next_ident h
     \<and> contents h' r = contents h' self
     \<and> atomic_propositions (contents h' self)
         = atomic_propositions (contents h self) \<union> atomic_propositions (contents h other)
     \<and> actions (contents h' self) = actions (contents h self) \<union> actions (contents h other)
     \<and> set (states (contents h' self))
         = set (states (contents h self)) \<union> set (states (contents h other))
     \<and> initial (contents h' self) = initial (contents h self) \<union> initial (contents h other)
     \<and> label_of (contents h' self)
         = (\<lambda>s. if s \<in> set (states (contents h other))
                then (case label_of (contents h other) s of
                        None \<Rightarrow> label_of (contents h self) s
                      | Some l \<Rightarrow> Some l)
                else label_of (contents h self) s)
     \<and> transitions (contents h' self)
         = transitions (contents h self) @ transitions (contents h other)
     \<and> (\<forall>c. c \<noteq> containers self \<longrightarrow> cells h' c = cells h c)
     \<and> (\<forall>f. contents (change h' r f) self = f (contents h' self))"
proof -
  let ?a = "contents h self" and ?b = "contents h other"
  from fts_add_result [OF assms, of ?a] obtain m where
    m: "fts_add ?a (FiniteTransitionSystem ?b :: ('s, 'a, unit) operand) = Inr m"
    and props: "atomic_propositions m = atomic_propositions ?a \<union> atomic_propositions ?b"
      "actions m = actions ?a \<union> actions ?b"
      "set (states m) = set (states ?a) \<union> set (states ?b)"
      "initial m = initial ?a \<union> initial ?b"
      "label_of m = (\<lambda>s. if s \<in> set (states ?b)
                          then (case label_of ?b s of None \<Rightarrow> label_of ?a s | Some l \<Rightarrow> Some l)
                          else label_of ?a s)"
      "transitions m = transitions ?a @ transitions ?b"
    by blast
  let ?h = "h\<lparr>cells := (cells h)(containers self := m), next_ident := Suc (next_ident h)\<rparr>"
  let ?r = "\<lparr>ident = next_ident h, containers = containers self\<rparr>"
  have run: "add_objects h self other = Inr (?h, ?r)"
    using m by (simp add: add_objects_def copy_copy_def)
  have now: "contents ?h self = m" "contents ?h ?r = m"
    by (simp_all add: contents_def)
  have frame: "\<forall>c. c \<noteq> containers self \<longrightarrow> cells ?h c = cells h c"
    by simp
  have shared: "\<forall>f. contents (change ?h ?r f) self = f (contents ?h self)"
    by (simp add: change_def contents_def)
  show ?thesis
    apply (rule exI [of _ ?h])
    apply (rule exI [of _ ?r])
    apply (intro conjI)
    apply (rule run)
    apply simp
    apply simp
    apply (simp only: now)
    apply (simp only: now props)
    apply (simp only: now props)
    apply (simp only: now props)
    apply (simp only: now props)
    apply (simp only: now props)
    apply (simp only: now props)
    apply (rule frame)
    apply (rule shared)
    done
qed

lemma well_formed_sample_store: "well_formed (contents sample_store source_handle)"
  by (simp add: contents_def sample_store_def source_handle_def well_formed_sample_source)

theorem add_objects_in_place_witness:
  "well_formed (contents sample_store source_handle)
   \<and> (\<exists>h' r. add_objects sample_store target_handle source_handle = Inr (h', r)
        \<and> containers r = 0 \<and> ident r = 2
        \<and> actions (contents sample_store target_handle) = {AStr ''a''}
        \<and> actions (contents h' target_handle) = {AStr ''a'', AStr ''b''}
        \<and> actions (contents h' r) = {AStr ''a'', AStr ''b''}
        \<and> atomic_propositions (contents h' target_handle) = {AStr ''p'', AStr ''q''}
        \<and> initial (contents h' target_handle) = {AStr ''s'', AStr ''t''}
        \<and> transitions (contents h' target_handle)
            = [(AStr ''s'', AStr ''u'', Some (AStr ''a'')),
               (AStr ''s'', AStr ''t'', Some (AStr ''b'')),
               (AStr ''t'', AStr ''s'', None)]
        \<and> contents h' source_handle = sample_source)"
proof -
  from add_objects_in_place [OF well_formed_sample_store, of target_handle]
  obtain h' r where run: "add_objects sample_store target_handle source_handle = Inr (h', r)"
    and r: "containers r = containers target_handle" "ident r = next_ident sample_store"
    and same: "contents h' r = contents h' target_handle"
    and ap: "atomic_propositions (contents h' target_handle)
         = atomic_propositions (contents sample_store target_handle)
           \<union> atomic_propositions (contents sample_store source_handle)"
    and act: "actions (contents h' target_handle)
         = actions (contents sample_store target_handle)
           \<union> actions (contents sample_store source_handle)"
    and ini: "initial (contents h' target_handle)
         = initial (contents sample_store target_handle)
           \<union> initial (contents sample_store source_handle)"
    and tr: "transitions (contents h' target_handle)
         = transitions (contents sample_store target_handle)
           @ transitions (contents sample_store source_handle)"
    and frame: "\<forall>c. c \<noteq> containers target_handle \<longrightarrow> cells h' c = cells sample_store c"
    by (elim exE conjE)
  have t: "contents sample_store target_handle = sample_target"
    and s: "contents sample_store source_handle = sample_source"
    by (simp_all add: contents_def sample_store_def target_handle_def source_handle_def)
  have 1: "containers r = 0" "ident r = 2"
    using r by (simp_all add: target_handle_def sample_store_def)
  have 2: "actions (contents sample_store target_handle) = {AStr ''a''}"
    by (simp add: t sample_target_def)
  have 3: "actions (contents h' target_handle) = {AStr ''a'', AStr ''b''}"
    unfolding act t s by (auto simp: sample_target_def sample_source_def)
  have 4: "atomic_propositions (contents h' target_handle) = {AStr ''p'', AStr ''q''}"
    unfolding ap t s by (auto simp: sample_target_def sample_source_def)
  have 5: "initial (contents h' target_handle) = {AStr ''s'', AStr ''t''}"
    unfolding ini t s by (auto simp: sample_target_def sample_source_def)
  have 6: "transitions (contents h' target_handle)
            = [(AStr ''s'', AStr ''u'', Some (AStr ''a'')),
               (AStr ''s'', AStr ''t'', Some (AStr ''b'')),
               (AStr ''t'', AStr ''s'', None)]"
    unfolding tr t s by (simp add: sample_target_def sample_source_def)
  have 7: "contents h' source_handle = sample_source"
    using frame [rule_format, of "containers source_handle"] s
    by (simp add: contents_def source_handle_def target_handle_def)
  from run 1 2 3 4 5 6 7 same well_formed_sample_store show ?thesis
    by (intro conjI exI [of _ h'] exI [of _ r]) simp_all
qed

section \<open>Builders: \<^verbatim>\<open>tuple2fts\<close>\<close>

lemma and_then_eq_Inr:
  "and_then m f = Inr r \<longleftrightarrow> (\<exists>x. m = Inr x \<and> f x = Inr r)"
  by (cases m) simp_all

lemma prepend_with_renamed: "prepend_with xs p = map (renamed p) xs"
  by (induction xs) (simp_all add: prepend_with_def renamed_def prefixed_def split: option.split)

lemma states_add_from_unlabelled:
  "label_of ts = (\<lambda>s. None) \<Longrightarrow>
   states_add_from ss ts
     = Inr (ts\<lparr>states := fold (\<lambda>x seen. if x \<in> set seen then seen else seen @ [x]) ss (states ts)\<rparr>)"
  by (induction ss arbitrary: ts) (simp_all add: states_add_def)

lemma states_add_from_new:
  "states_add_from ss (new_fts nm b) = Inr ((new_fts nm b)\<lparr>states := unique ss\<rparr>)"
  using states_add_from_unlabelled [of "new_fts nm b" ss]
  by (simp add: new_fts_def unique_def)

lemma states_label_obj_frame:
  "states_label_obj s l ts = Inr r \<Longrightarrow>
   s \<in> set (states ts) \<and> (\<exists>f. r = ts\<lparr>label_of := f\<rparr>)"
  by (cases "(s, l, ts)" rule: states_label_obj.cases)
     (auto simp: states_label_def split: if_splits)

lemma label_states_frame:
  "label_states p xs ts = Inr r \<Longrightarrow>
   states r = states ts \<and> initial r = initial ts
   \<and> atomic_propositions r = atomic_propositions ts \<and> actions r = actions ts
   \<and> transitions r = transitions ts \<and> name r = name ts \<and> mutants r = mutants ts"
proof (induction xs arbitrary: ts)
  case Nil
  then show ?case by simp
next
  case (Cons x xs)
  from Cons.prems obtain state ap_label ts1 where
    "unpack2 x = Inr (state, ap_label)"
    and l: "states_label_obj (renamed p state) (str2singleton ap_label) ts = Inr ts1"
    and rest: "label_states p xs ts1 = Inr r"
    by (auto simp: prepend_with_renamed split: sum.splits)
  from states_label_obj_frame [OF l] obtain f where "ts1 = ts\<lparr>label_of := f\<rparr>"
    by blast
  with Cons.IH [OF rest] show ?case
    by simp
qed

lemma add_unlabeled_result:
  "add_unlabeled p tr ts = Inr r \<Longrightarrow>
   r = ts\<lparr>transitions := transitions ts @ map (renamed_transition p) tr\<rparr>"
proof (induction p tr ts rule: add_unlabeled.induct)
  case (1 p ts)
  then show ?case by simp
next
  case (2 p f g rest ts)
  from "2.prems" obtain ts1 where
    a: "transitions_add (renamed p f) (renamed p g) ts = Inr ts1"
    and rest: "add_unlabeled p rest ts1 = Inr r"
    by (auto simp: prepend_with_renamed split: sum.splits)
  from a have ts1: "ts1 = ts\<lparr>transitions := transitions ts @ [(renamed p f, renamed p g, None)]\<rparr>"
    by (auto simp: transitions_add_def split: if_splits)
  have "r = ts1\<lparr>transitions := transitions ts1 @ map (renamed_transition p) rest\<rparr>"
    by (rule "2.IH" [OF _ _ _ a rest]) (simp_all add: prepend_with_renamed)
  then show ?case
    by (simp add: ts1)
next
  case (3 p f g a rest ts)
  then show ?case by simp
qed

lemma add_labeled_result:
  "add_labeled p tr ts = Inr r \<Longrightarrow>
   r = ts\<lparr>transitions := transitions ts @ map (renamed_transition p) tr\<rparr>"
proof (induction p tr ts rule: add_labeled.induct)
  case (1 p ts)
  then show ?case by simp
next
  case (2 p f g act rest ts)
  from "2.prems" obtain ts1 where
    a: "transitions_add_labeled (renamed p f) (renamed p g) act ts = Inr ts1"
    and rest: "add_labeled p rest ts1 = Inr r"
    by (auto simp: prepend_with_renamed split: sum.splits)
  from a have ts1: "ts1 = ts\<lparr>transitions := transitions ts @ [(renamed p f, renamed p g, Some act)]\<rparr>"
    by (auto simp: transitions_add_labeled_def split: if_splits)
  have "r = ts1\<lparr>transitions := transitions ts1 @ map (renamed_transition p) rest\<rparr>"
    by (rule "2.IH" [OF _ _ _ a rest]) (simp_all add: prepend_with_renamed)
  then show ?case
    by (simp add: ts1)
next
  case (3 p f g rest ts)
  then show ?case by simp
qed

lemma initial_list_case:
  "(case S0 of OneState s \<Rightarrow> [s] | StateList ss \<Rightarrow> ss) = initial_list S0"
  by (cases S0) simp_all

lemma initial_union_result:
  "initial_union ss ts = Inr r \<Longrightarrow> r = ts\<lparr>initial := initial ts \<union> ss\<rparr>"
  by (auto simp: initial_union_def split: if_splits)

lemma tuple2fts_fields:
  assumes "tuple2fts S S0 AP L Act trans' nm prepend_str = Inr ts"
  shows "states ts = unique (map (renamed prepend_str) S)
     \<and> initial ts = renamed prepend_str ` set (initial_list S0)
     \<and> atomic_propositions ts = set AP
     \<and> actions ts = (case Act of None \<Rightarrow> {} | Some acts \<Rightarrow> set acts)
     \<and> transitions ts = map (renamed_transition prepend_str) trans'
     \<and> name ts = nm \<and> mutants ts = False"
proof -
  let ?new = "new_fts nm False :: (atom, atom) fts"
  from assms obtain sl ts1 ts2 ts3 where
    a1: "states_add_from (map (renamed prepend_str) S) ?new = Inr ts1"
    and a2: "initial_union (set (map (renamed prepend_str) (initial_list S0))) ts1 = Inr ts2"
    and a3: "(case sl of None \<Rightarrow> Inr (ts2\<lparr>atomic_propositions := atomic_propositions ts2 \<union> set AP\<rparr>)
              | Some pairs \<Rightarrow> label_states prepend_str pairs
                  (ts2\<lparr>atomic_propositions := atomic_propositions ts2 \<union> set AP\<rparr>)) = Inr ts3"
    and a4: "(case Act of None \<Rightarrow> add_unlabeled prepend_str trans' ts3
              | Some acts \<Rightarrow> add_labeled prepend_str trans'
                  (ts3\<lparr>actions := actions ts3 \<union> set acts\<rparr>)) = Inr ts"
    unfolding tuple2fts_def Let_def and_then_eq_Inr initial_list_case prepend_with_renamed
    by blast
  have ts1: "ts1 = ?new\<lparr>states := unique (map (renamed prepend_str) S)\<rparr>"
    using a1 by (simp add: states_add_from_new)
  have ts2: "ts2 = ts1\<lparr>initial := initial ts1 \<union> set (map (renamed prepend_str) (initial_list S0))\<rparr>"
    using a2 by (rule initial_union_result)
  let ?ts2 = "ts2\<lparr>atomic_propositions := atomic_propositions ts2 \<union> set AP\<rparr>"
  have ts3: "states ts3 = states ?ts2 \<and> initial ts3 = initial ?ts2
      \<and> atomic_propositions ts3 = atomic_propositions ?ts2 \<and> actions ts3 = actions ?ts2
      \<and> transitions ts3 = transitions ?ts2 \<and> name ts3 = name ?ts2 \<and> mutants ts3 = mutants ?ts2"
  proof (cases sl)
    case None
    with a3 show ?thesis by auto
  next
    case (Some pairs)
    with a3 have "label_states prepend_str pairs ?ts2 = Inr ts3"
      by simp
    then show ?thesis
      by (rule label_states_frame)
  qed
  show ?thesis
  proof (cases Act)
    case None
    with a4 have "add_unlabeled prepend_str trans' ts3 = Inr ts"
      by simp
    then have "ts = ts3\<lparr>transitions := transitions ts3 @ map (renamed_transition prepend_str) trans'\<rparr>"
      by (rule add_unlabeled_result)
    with ts3 None show ?thesis
      by (simp add: ts2 ts1 new_fts_def)
  next
    case (Some acts)
    with a4 have "add_labeled prepend_str trans' (ts3\<lparr>actions := actions ts3 \<union> set acts\<rparr>) = Inr ts"
      by simp
    then have "ts = (ts3\<lparr>actions := actions ts3 \<union> set acts\<rparr>)\<lparr>transitions :=
        transitions (ts3\<lparr>actions := actions ts3 \<union> set acts\<rparr>) @ map (renamed_transition prepend_str) trans'\<rparr>"
      by (rule add_labeled_result)
    with ts3 Some show ?thesis
      by (simp add: ts2 ts1 new_fts_def)
  qed
qed



section \<open>Builders: lines and cycles\<close>

lemma set_py_range: "set (py_range a b) = {a..<b}"
proof -
  have "x \<in> (\<lambda>k. a + int k) ` {0..<nat (b - a)}" if "a \<le> x" "x < b" for x
  proof
    show "x = a + int (nat (x - a))" using that by simp
    show "nat (x - a) \<in> {0..<nat (b - a)}" using that by simp
  qed
  then show ?thesis
    by (auto simp: py_range_def)
qed

lemma length_py_range: "length (py_range a b) = nat (b - a)"
  by (simp add: py_range_def)

lemma zip_py_range:
  "zip (py_range m (m + n - 1)) (py_range (m + 1) (m + n))
     = map (\<lambda>i. (i, i + 1)) (py_range m (m + n - 1))"
proof -
  have "py_range (m + 1) (m + n) = map (\<lambda>i. i + 1) (py_range m (m + n - 1))"
    by (simp add: py_range_def add.commute add.left_commute)
  then show ?thesis
    by (simp add: zip_map2 zip_same_conv_map)
qed

lemma unpack2_str:
  "(case unpack2 (Atom (AStr q)) of
      Inr (state, ap_label) \<Rightarrow> Inr False
    | Inl e \<Rightarrow> if e = ValueError then Inr False else Inl e) = (Inr False :: error + bool)"
  by (cases "Atom (AStr q)" rule: unpack2.cases) auto

lemma pair_labels_strings:
  assumes "ps \<noteq> []"
  shows "pair_labels_with_states S (Some (strings ps))
           = Inr (Some (map (\<lambda>(s, l). Tuple2 s l) (zip S (strings ps))))"
proof -
  from assms obtain q qs where ps: "ps = q # qs"
    by (cases ps) auto
  show ?thesis
    by (simp add: ps strings_def pair_labels_with_states_def unpack2_str)
qed

lemma label_states_ok:
  assumes "\<forall>x\<in>set xs. \<exists>s q. x = Tuple2 s (Atom (AStr q))
             \<and> renamed p s \<in> set (states ts) \<and> AStr q \<in> atomic_propositions ts"
  shows "\<exists>r. label_states p xs ts = Inr r"
  using assms
proof (induction xs arbitrary: ts)
  case Nil
  show ?case by simp
next
  case (Cons x xs)
  from Cons.prems obtain s q where x: "x = Tuple2 s (Atom (AStr q))"
    and s: "renamed p s \<in> set (states ts)" and q: "AStr q \<in> atomic_propositions ts"
    by auto
  let ?ts1 = "ts\<lparr>label_of := (label_of ts)(renamed p s \<mapsto> {AStr q})\<rparr>"
  have "\<forall>x\<in>set xs. \<exists>s q. x = Tuple2 s (Atom (AStr q))
          \<and> renamed p s \<in> set (states ?ts1) \<and> AStr q \<in> atomic_propositions ?ts1"
    using Cons.prems by simp
  from Cons.IH [OF this] obtain r where "label_states p xs ?ts1 = Inr r" ..
  then show ?case
    using s q by (simp add: x prepend_with_renamed states_label_def)
qed

lemma add_unlabeled_ok:
  assumes "\<forall>t\<in>set tr. \<exists>f g. t = Trans2 f g
             \<and> renamed p f \<in> set (states ts) \<and> renamed p g \<in> set (states ts)"
  shows "\<exists>r. add_unlabeled p tr ts = Inr r"
  using assms
proof (induction tr arbitrary: ts)
  case Nil
  show ?case by simp
next
  case (Cons t tr)
  from Cons.prems obtain f g where t: "t = Trans2 f g"
    and f: "renamed p f \<in> set (states ts)" and g: "renamed p g \<in> set (states ts)"
    by auto
  let ?ts1 = "ts\<lparr>transitions := transitions ts @ [(renamed p f, renamed p g, None)]\<rparr>"
  have "\<forall>t\<in>set tr. \<exists>f g. t = Trans2 f g
          \<and> renamed p f \<in> set (states ?ts1) \<and> renamed p g \<in> set (states ?ts1)"
    using Cons.prems by simp
  from Cons.IH [OF this] obtain r where "add_unlabeled p tr ?ts1 = Inr r" ..
  then show ?case
    using f g by (simp add: t prepend_with_renamed transitions_add_def)
qed

lemma closure_of_strings_eq:
  "negation_closure (strings ps) = Inr (unique (generated ps))"
  by (simp add: negation_closure_def strings_def closure_items_strings generated_def)

lemma renamed_s: "renamed (Some ''s'') (AInt i) = state_name i"
  by (simp add: renamed_def prefixed_def state_name_def)

lemma length_strings [simp]: "length (strings ps) = length ps"
  by (simp add: strings_def)

lemma set_strings: "set (strings ps) = (\<lambda>p. Atom (AStr p)) ` set ps"
  by (simp add: strings_def)

lemma line_labeled_with_strings:
  assumes "ps \<noteq> []"
  shows "\<exists>ts. line_labeled_with (strings ps) m = Inr ts
     \<and> states ts = unique (map state_name (py_range m (m + int (length ps))))
     \<and> initial ts = {}
     \<and> atomic_propositions ts = set (unique (generated ps))
     \<and> actions ts = {}
     \<and> transitions ts = map (\<lambda>i. (state_name i, state_name (i + 1), None))
                            (py_range m (m + int (length ps) - 1))
     \<and> name ts = ''fts'' \<and> mutants ts = False"
proof -
  define n where "n = int (length ps)"
  define S where "S = map AInt (py_range m (m + n))"
  define AP where "AP = unique (generated ps)"
  define tr where "tr = map (\<lambda>(f, t). Trans2 (AInt f) (AInt t))
                          (zip (py_range m (m + n - 1)) (py_range (m + 1) (m + n)))"
  let ?p = "Some ''s''"
  have line: "line_labeled_with (strings ps) m
                = tuple2fts S (StateList []) AP (Some (strings ps)) None tr ''fts'' ?p"
    by (simp add: line_labeled_with_def Let_def closure_of_strings_eq
        n_def S_def AP_def tr_def)
  define ts2 :: "(atom, atom) fts" where
    "ts2 = (new_fts ''fts'' False)\<lparr>states := unique (map (renamed ?p) S),
              initial := {}, atomic_propositions := set AP\<rparr>"
  have st2: "set (states ts2) = renamed ?p ` set S" and ap2: "atomic_propositions ts2 = set AP"
    by (simp_all add: ts2_def)
  have "\<forall>x\<in>set (map (\<lambda>(s, l). Tuple2 s l) (zip S (strings ps))).
          \<exists>s q. x = Tuple2 s (Atom (AStr q))
            \<and> renamed ?p s \<in> set (states ts2) \<and> AStr q \<in> atomic_propositions ts2"
  proof
    fix x
    assume "x \<in> set (map (\<lambda>(s, l). Tuple2 s l) (zip S (strings ps)))"
    then obtain s l where x: "x = Tuple2 s l" and sl: "(s, l) \<in> set (zip S (strings ps))"
      by auto
    from sl have "s \<in> set S" and "l \<in> set (strings ps)"
      by (auto dest: set_zip_leftD set_zip_rightD)
    then obtain q where "l = Atom (AStr q)" and "q \<in> set ps"
      by (auto simp: set_strings)
    moreover from \<open>q \<in> set ps\<close> have "AStr q \<in> set AP"
      by (auto simp: AP_def generated_def)
    ultimately show "\<exists>s q. x = Tuple2 s (Atom (AStr q))
            \<and> renamed ?p s \<in> set (states ts2) \<and> AStr q \<in> atomic_propositions ts2"
      using x \<open>s \<in> set S\<close> by (simp add: st2 ap2)
  qed
  from label_states_ok [OF this] obtain r3 where
    r3: "label_states ?p (map (\<lambda>(s, l). Tuple2 s l) (zip S (strings ps))) ts2 = Inr r3" ..
  from label_states_frame [OF r3] have st3: "set (states r3) = renamed ?p ` set S"
    by (simp add: st2)
  have "\<forall>t\<in>set tr. \<exists>f g. t = Trans2 f g
          \<and> renamed ?p f \<in> set (states r3) \<and> renamed ?p g \<in> set (states r3)"
  proof
    fix t
    assume "t \<in> set tr"
    then obtain f g where t: "t = Trans2 (AInt f) (AInt g)"
      and fg: "(f, g) \<in> set (zip (py_range m (m + n - 1)) (py_range (m + 1) (m + n)))"
      by (auto simp: tr_def)
    from fg have "f \<in> set (py_range m (m + n - 1))" and "g \<in> set (py_range (m + 1) (m + n))"
      by (auto dest: set_zip_leftD set_zip_rightD)
    then have "AInt f \<in> set S" and "AInt g \<in> set S"
      by (auto simp: S_def set_py_range)
    with t show "\<exists>f g. t = Trans2 f g
          \<and> renamed ?p f \<in> set (states r3) \<and> renamed ?p g \<in> set (states r3)"
      by (simp add: st3)
  qed
  from add_unlabeled_ok [OF this] obtain r4 where r4: "add_unlabeled ?p tr r3 = Inr r4" ..
  have new2: "(new_fts ''fts'' False :: (atom, atom) fts)\<lparr>states := unique (map (renamed ?p) S),
                 initial := {}, atomic_propositions := set AP\<rparr> = ts2"
    by (simp add: ts2_def)
  have run: "tuple2fts S (StateList []) AP (Some (strings ps)) None tr ''fts'' ?p = Inr r4"
    unfolding tuple2fts_def Let_def pair_labels_strings [OF assms] prepend_with_renamed
      states_add_from_new
    using r3 r4
    by (simp add: initial_union_def new2 [symmetric] new_fts_def)
  have tr_eq: "map (renamed_transition ?p) tr
         = map (\<lambda>i. (state_name i, state_name (i + 1), None)) (py_range m (m + n - 1))"
    by (simp add: tr_def zip_py_range renamed_s)
  have st_eq: "map (renamed ?p) S = map state_name (py_range m (m + n))"
    by (simp add: S_def renamed_s)
  from tuple2fts_fields [OF run] line run show ?thesis
    by (intro exI [of _ r4]) (simp add: tr_eq st_eq AP_def n_def)
qed

lemma closure_items_Inr:
  "closure_items L = Inr r \<Longrightarrow> \<exists>ps. L = strings ps"
proof (induction L arbitrary: r rule: closure_items.induct)
  case 1
  have "[] = strings []" by (simp add: strings_def)
  then show ?case ..
next
  case (2 x xs)
  from "2.prems" obtain r' where "closure_items xs = Inr r'"
    by (auto simp: and_then_eq_Inr)
  from "2.IH" [OF this] obtain ps where "xs = strings ps" ..
  then have "Atom (AStr x) # xs = strings (x # ps)"
    by (simp add: strings_def)
  then show ?case ..
qed simp_all

lemma line_labeled_with_Inr:
  assumes "line_labeled_with L m = Inr ts"
  shows "\<exists>ps. ps \<noteq> [] \<and> L = strings ps"
proof -
  from assms obtain AP where nc: "negation_closure L = Inr AP"
    by (auto simp: line_labeled_with_def Let_def and_then_eq_Inr)
  then obtain r where "closure_items L = Inr r"
    by (auto simp: negation_closure_def and_then_eq_Inr)
  from closure_items_Inr [OF this] obtain ps where L: "L = strings ps" ..
  have "ps \<noteq> []"
  proof
    assume "ps = []"
    with L have "L = []" by (simp add: strings_def)
    with assms show False
      by (simp add: line_labeled_with_def Let_def negation_closure_def tuple2fts_def
          pair_labels_with_states_def)
  qed
  with L show ?thesis by blast
qed

lemma line_labeled_with_empty: "line_labeled_with [] m = Inl IndexError"
  by (simp add: line_labeled_with_def Let_def negation_closure_def tuple2fts_def
      pair_labels_with_states_def)

lemma line_labeled_with_not_string:
  "line_labeled_with (SetOf l # L) m = Inl AttributeError"
  by (simp add: line_labeled_with_def Let_def negation_closure_def)

lemma str_int_0: "str_int 0 = ''0''"
  by (simp add: str_int_def digits.simps)

lemma state_name_0: "state_name 0 = AStr ''s0''"
  by (simp add: state_name_def str_int_0)

lemma line_ppq:
  "line_labeled_with (strings [''p'', ''p'', ''q'']) 0
     = Inr \<lparr>name = ''fts'',
            atomic_propositions = {AStr ''p'', AStr ''!p'', AStr ''q'', AStr ''!q'', ATrue},
            actions = {},
            states = [AStr ''s0'', AStr ''s1'', AStr ''s2''], initial = {},
            label_of = [AStr ''s0'' \<mapsto> {AStr ''p''}, AStr ''s1'' \<mapsto> {AStr ''p''},
                        AStr ''s2'' \<mapsto> {AStr ''q''}],
            transitions = [(AStr ''s0'', AStr ''s1'', None), (AStr ''s1'', AStr ''s2'', None)],
            mutants = False\<rparr>"
  by (simp add: line_labeled_with_def strings_def negation_closure_def negate_def unique_def
      py_range_def upt_rec
      tuple2fts_def pair_labels_with_states_def prepend_with_def str_int_def
      digits.simps new_fts_def states_add_def initial_union_def states_label_def
      transitions_add_def Let_def)

lemma cycle_ppq:
  "cycle_labeled_with (strings [''p'', ''p'', ''q''])
     = Inr \<lparr>name = ''fts'',
            atomic_propositions = {AStr ''p'', AStr ''!p'', AStr ''q'', AStr ''!q'', ATrue},
            actions = {},
            states = [AStr ''s0'', AStr ''s1'', AStr ''s2''], initial = {},
            label_of = [AStr ''s0'' \<mapsto> {AStr ''p''}, AStr ''s1'' \<mapsto> {AStr ''p''},
                        AStr ''s2'' \<mapsto> {AStr ''q''}],
            transitions = [(AStr ''s0'', AStr ''s1'', None), (AStr ''s1'', AStr ''s2'', None),
                           (AStr ''s2'', AStr ''s0'', None)],
            mutants = False\<rparr>"
  unfolding cycle_labeled_with_def line_ppq
  by (simp add: strings_def transitions_add_def str_int_def digits.simps Let_def)

lemma transitions_add_result:
  "transitions_add f g ts = Inr r \<Longrightarrow>
   r = ts\<lparr>transitions := transitions ts @ [(f, g, None)]\<rparr>"
  by (auto simp: transitions_add_def split: if_splits)

lemma cycle_of_line:
  assumes "line_labeled_with L 0 = Inr ts"
  shows "initial ts = {}"
    and "cycle_labeled_with L
           = Inr (ts\<lparr>transitions := transitions ts
                    @ [(state_name (int (length L) - 1), state_name 0, None)]\<rparr>)"
proof -
  from line_labeled_with_Inr [OF assms] obtain ps where ps: "ps \<noteq> []" and L: "L = strings ps"
    by blast
  from line_labeled_with_strings [OF ps, of 0] assms obtain
    st: "states ts = unique (map state_name (py_range 0 (0 + int (length ps))))"
    and ini: "initial ts = {}"
    by (auto simp: L)
  show "initial ts = {}" by (rule ini)
  from ps have "0 < length ps" by simp
  then have "int (length ps) - 1 \<in> {0..<int (length ps)}" and "0 \<in> {0..<int (length ps)}"
    by simp_all
  then have "state_name (int (length ps) - 1) \<in> set (states ts)"
    and "state_name 0 \<in> set (states ts)"
    by (simp_all add: st set_py_range)
  then show "cycle_labeled_with L
           = Inr (ts\<lparr>transitions := transitions ts
                    @ [(state_name (int (length L) - 1), state_name 0, None)]\<rparr>)"
    using assms
    by (simp add: cycle_labeled_with_def Let_def L transitions_add_def state_name_def
        str_int_0)
qed

text \<open>
  Claim C8.  Whenever \<^verbatim>\<open>line_labeled_with(L)\<close> returns a system, that system has no
  initial states and \<^verbatim>\<open>cycle_labeled_with(L)\<close> returns the same system with one more
  transition, from the last state \<^verbatim>\<open>'s' + str(len(L) - 1)\<close> to the first state \<^verbatim>\<open>'s0'\<close>;
  when the line fails, the cycle fails with the same exception.  For a non-empty list of
  strings the line is returned: its states are named \<^verbatim>\<open>s0\<close>, ..., and its transitions lead
  from each state to the next.  For \<^verbatim>\<open>['p', 'p', 'q']\<close> the cycle has the states \<^verbatim>\<open>s0\<close>,
  \<^verbatim>\<open>s1\<close>, \<^verbatim>\<open>s2\<close> labelled \<^verbatim>\<open>{'p'}\<close>, \<^verbatim>\<open>{'p'}\<close>, \<^verbatim>\<open>{'q'}\<close> and exactly the transitions
  \<^verbatim>\<open>s0 -> s1\<close>, \<^verbatim>\<open>s1 -> s2\<close>, \<^verbatim>\<open>s2 -> s0\<close>.
\<close>

theorem cycle_labeled_with_closes_line:
  "(line_labeled_with L 0 = Inr ts \<longrightarrow>
      initial ts = {}
      \<and> cycle_labeled_with L
          = Inr (ts\<lparr>transitions := transitions ts
                   @ [(state_name (int (length L) - 1), state_name 0, None)]\<rparr>))
   \<and> (line_labeled_with L 0 = Inl e \<longrightarrow> cycle_labeled_with L = Inl e)
   \<and> (ps \<noteq> [] \<longrightarrow>
        (\<exists>ts'. line_labeled_with (strings ps) 0 = Inr ts'
           \<and> set (states ts') = state_name ` {0..<int (length ps)}
           \<and> transitions ts' = map (\<lambda>i. (state_name i, state_name (i + 1), None))
                                   (py_range 0 (int (length ps) - 1))))
   \<and> line_labeled_with (strings [''p'', ''p'', ''q'']) 0
       = Inr \<lparr>name = ''fts'',
            atomic_propositions = {AStr ''p'', AStr ''!p'', AStr ''q'', AStr ''!q'', ATrue},
            actions = {},
            states = [AStr ''s0'', AStr ''s1'', AStr ''s2''], initial = {},
            label_of = [AStr ''s0'' \<mapsto> {AStr ''p''}, AStr ''s1'' \<mapsto> {AStr ''p''},
                        AStr ''s2'' \<mapsto> {AStr ''q''}],
            transitions = [(AStr ''s0'', AStr ''s1'', None), (AStr ''s1'', AStr ''s2'', None)],
            mutants = False\<rparr>
   \<and> cycle_labeled_with (strings [''p'', ''p'', ''q''])
       = Inr \<lparr>name = ''fts'',
            atomic_propositions = {AStr ''p'', AStr ''!p'', AStr ''q'', AStr ''!q'', ATrue},
            actions = {},
            states = [AStr ''s0'', AStr ''s1'', AStr ''s2''], initial = {},
            label_of = [AStr ''s0'' \<mapsto> {AStr ''p''}, AStr ''s1'' \<mapsto> {AStr ''p''},
                        AStr ''s2'' \<mapsto> {AStr ''q''}],
            transitions = [(AStr ''s0'', AStr ''s1'', None), (AStr ''s1'', AStr ''s2'', None),
                           (AStr ''s2'', AStr ''s0'', None)],
            mutants = False\<rparr>"
proof (intro conjI impI)
  assume "line_labeled_with L 0 = Inr ts"
  then show "initial ts = {}"
    and "cycle_labeled_with L
          = Inr (ts\<lparr>transitions := transitions ts
                   @ [(state_name (int (length L) - 1), state_name 0, None)]\<rparr>)"
    by (rule cycle_of_line)+
next
  assume "line_labeled_with L 0 = Inl e"
  then show "cycle_labeled_with L = Inl e"
    by (simp add: cycle_labeled_with_def)
next
  assume "ps \<noteq> []"
  from line_labeled_with_strings [OF this, of 0]
  show "\<exists>ts'. line_labeled_with (strings ps) 0 = Inr ts'
           \<and> set (states ts') = state_name ` {0..<int (length ps)}
           \<and> transitions ts' = map (\<lambda>i. (state_name i, state_name (i + 1), None))
                                   (py_range 0 (int (length ps) - 1))"
    by (auto simp: set_py_range)
next
  show "line_labeled_with (strings [''p'', ''p'', ''q'']) 0
       = Inr \<lparr>name = ''fts'',
            atomic_propositions = {AStr ''p'', AStr ''!p'', AStr ''q'', AStr ''!q'', ATrue},
            actions = {},
            states = [AStr ''s0'', AStr ''s1'', AStr ''s2''], initial = {},
            label_of = [AStr ''s0'' \<mapsto> {AStr ''p''}, AStr ''s1'' \<mapsto> {AStr ''p''},
                        AStr ''s2'' \<mapsto> {AStr ''q''}],
            transitions = [(AStr ''s0'', AStr ''s1'', None), (AStr ''s1'', AStr ''s2'', None)],
            mutants = False\<rparr>"
    by (rule line_ppq)
next
  show "cycle_labeled_with (strings [''p'', ''p'', ''q''])
       = Inr \<lparr>name = ''fts'',
            atomic_propositions = {AStr ''p'', AStr ''!p'', AStr ''q'', AStr ''!q'', ATrue},
            actions = {},
            states = [AStr ''s0'', AStr ''s1'', AStr ''s2''], initial = {},
            label_of = [AStr ''s0'' \<mapsto> {AStr ''p''}, AStr ''s1'' \<mapsto> {AStr ''p''},
                        AStr ''s2'' \<mapsto> {AStr ''q''}],
            transitions = [(AStr ''s0'', AStr ''s1'', None), (AStr ''s1'', AStr ''s2'', None),
                           (AStr ''s2'', AStr ''s0'', None)],
            mutants = False\<rparr>"
    by (rule cycle_ppq)
qed

theorem cycle_labeled_with_closes_line_witness:
  "initial (\<lparr>name = ''fts'',
            atomic_propositions = {AStr ''p'', AStr ''!p'', AStr ''q'', AStr ''!q'', ATrue},
            actions = {},
            states = [AStr ''s0'', AStr ''s1'', AStr ''s2''], initial = {},
            label_of = [AStr ''s0'' \<mapsto> {AStr ''p''}, AStr ''s1'' \<mapsto> {AStr ''p''},
                        AStr ''s2'' \<mapsto> {AStr ''q''}],
            transitions = [(AStr ''s0'', AStr ''s1'', None), (AStr ''s1'', AStr ''s2'', None)],
            mutants = False\<rparr> :: (atom, atom) fts) = {}
   \<and> cycle_labeled_with (strings [''p'', ''p'', ''q''])
       = Inr (\<lparr>name = ''fts'',
            atomic_propositions = {AStr ''p'', AStr ''!p'', AStr ''q'', AStr ''!q'', ATrue},
            actions = {},
            states = [AStr ''s0'', AStr ''s1'', AStr ''s2''], initial = {},
            label_of = [AStr ''s0'' \<mapsto> {AStr ''p''}, AStr ''s1'' \<mapsto> {AStr ''p''},
                        AStr ''s2'' \<mapsto> {AStr ''q''}],
            transitions = [(AStr ''s0'', AStr ''s1'', None), (AStr ''s1'', AStr ''s2'', None)],
            mutants = False\<rparr>\<lparr>transitions := transitions \<lparr>name = ''fts'',
            atomic_propositions = {AStr ''p'', AStr ''!p'', AStr ''q'', AStr ''!q'', ATrue},
            actions = {},
            states = [AStr ''s0'', AStr ''s1'', AStr ''s2''], initial = {},
            label_of = [AStr ''s0'' \<mapsto> {AStr ''p''}, AStr ''s1'' \<mapsto> {AStr ''p''},
                        AStr ''s2'' \<mapsto> {AStr ''q''}],
            transitions = [(AStr ''s0'', AStr ''s1'', None), (AStr ''s1'', AStr ''s2'', None)],
            mutants = False\<rparr>
                   @ [(state_name (int (length (strings [''p'', ''p'', ''q''])) - 1),
                       state_name 0, None)]\<rparr>)
   \<and> state_name (int (length (strings [''p'', ''p'', ''q''])) - 1) = AStr ''s2''
   \<and> state_name 0 = AStr ''s0''
   \<and> (\<exists>ts'. line_labeled_with (strings [''p'', ''p'', ''q'']) 0 = Inr ts'
         \<and> set (states ts') = state_name ` {0..<int (length [''p'', ''p'', ''q''])})"
proof -
  let ?R = "\<lparr>name = ''fts'',
            atomic_propositions = {AStr ''p'', AStr ''!p'', AStr ''q'', AStr ''!q'', ATrue},
            actions = {},
            states = [AStr ''s0'', AStr ''s1'', AStr ''s2''], initial = {},
            label_of = [AStr ''s0'' \<mapsto> {AStr ''p''}, AStr ''s1'' \<mapsto> {AStr ''p''},
                        AStr ''s2'' \<mapsto> {AStr ''q''}],
            transitions = [(AStr ''s0'', AStr ''s1'', None), (AStr ''s1'', AStr ''s2'', None)],
            mutants = False\<rparr>"
  note th = cycle_labeled_with_closes_line
    [where L = "strings [''p'', ''p'', ''q'']" and ts = ?R and ps = "[''p'', ''p'', ''q'']"
       and e = TypeError]
  from th have line: "line_labeled_with (strings [''p'', ''p'', ''q'']) 0 = Inr ?R"
    by (rule conjunct2 [THEN conjunct2, THEN conjunct2, THEN conjunct1])
  note closes = th [THEN conjunct1, THEN mp, OF line]
  have ne: "[''p'', ''p'', ''q''] \<noteq> []"
    by simp
  from th [THEN conjunct2, THEN conjunct2, THEN conjunct1, THEN mp, OF ne]
  have ex: "\<exists>ts'. line_labeled_with (strings [''p'', ''p'', ''q'']) 0 = Inr ts'
         \<and> set (states ts') = state_name ` {0..<int (length [''p'', ''p'', ''q''])}"
    by blast
  have names: "state_name (int (length (strings [''p'', ''p'', ''q''])) - 1) = AStr ''s2''"
    "state_name 0 = AStr ''s0''"
    by (simp_all add: state_name_def str_int_def digits.simps)
  note a = closes [THEN conjunct1]
  note b = closes [THEN conjunct2]
  from a b names ex show ?thesis
    by (intro conjI)
qed

text \<open>
  Claim C10.  Whenever \<^verbatim>\<open>line_labeled_with(L, m)\<close> returns a system, its set of atomic
  propositions is the negation closure of \<open>L\<close>: every element of \<open>L\<close> is a string \<open>p\<close>, and
  the set holds \<open>p\<close>, its toggle (\<open>p\<close> without its first character when \<open>p\<close> starts with
  \<^verbatim>\<open>'!'\<close>, and \<^verbatim>\<open>'!'\<close> followed by \<open>p\<close> otherwise) and the constant \<^verbatim>\<open>True\<close>, so it is
  strictly larger than the set of labels in \<open>L\<close>.  The same holds for
  \<^verbatim>\<open>cycle_labeled_with(L)\<close>.  Both return a system for every non-empty list of strings.
\<close>

theorem line_labeled_with_aps_closure:
  "(line_labeled_with L m = Inr ts \<longrightarrow>
      (\<exists>ap. negation_closure L = Inr ap \<and> atomic_propositions ts = set ap)
      \<and> ATrue \<in> atomic_propositions ts
      \<and> (\<forall>x\<in>set L. \<exists>p. x = Atom (AStr p)
            \<and> AStr p \<in> atomic_propositions ts
            \<and> (if p \<noteq> [] \<and> hd p = CHR ''!'' then AStr (tl p) \<in> atomic_propositions ts
                else AStr (CHR ''!'' # p) \<in> atomic_propositions ts))
      \<and> {a. Atom a \<in> set L} \<subset> atomic_propositions ts)
   \<and> (cycle_labeled_with L = Inr c \<longrightarrow>
      (\<exists>ap. negation_closure L = Inr ap \<and> atomic_propositions c = set ap)
      \<and> ATrue \<in> atomic_propositions c
      \<and> (\<forall>x\<in>set L. \<exists>p. x = Atom (AStr p)
            \<and> AStr p \<in> atomic_propositions c
            \<and> (if p \<noteq> [] \<and> hd p = CHR ''!'' then AStr (tl p) \<in> atomic_propositions c
                else AStr (CHR ''!'' # p) \<in> atomic_propositions c))
      \<and> {a. Atom a \<in> set L} \<subset> atomic_propositions c)
   \<and> (ps \<noteq> [] \<longrightarrow>
        (\<exists>ts'. line_labeled_with (strings ps) m = Inr ts')
        \<and> (\<exists>c'. cycle_labeled_with (strings ps) = Inr c'))"
proof -
  have line: "(\<exists>ap. negation_closure L = Inr ap \<and> atomic_propositions t = set ap)
      \<and> ATrue \<in> atomic_propositions t
      \<and> (\<forall>x\<in>set L. \<exists>p. x = Atom (AStr p)
            \<and> AStr p \<in> atomic_propositions t
            \<and> (if p \<noteq> [] \<and> hd p = CHR ''!'' then AStr (tl p) \<in> atomic_propositions t
                else AStr (CHR ''!'' # p) \<in> atomic_propositions t))
      \<and> {a. Atom a \<in> set L} \<subset> atomic_propositions t"
    if run: "line_labeled_with L k = Inr t" for t k
  proof -
    from line_labeled_with_Inr [OF run] obtain qs where qs: "qs \<noteq> []" and L: "L = strings qs"
      by blast
    from line_labeled_with_strings [OF qs, of k] run
    have ap: "atomic_propositions t = set (unique (generated qs))"
      by (auto simp: L)
    have gen: "set (generated qs) = (\<Union>p\<in>set qs. {AStr p, AStr (negate p)}) \<union> {ATrue}"
      by (auto simp: generated_def)
    have 1: "\<exists>ap. negation_closure L = Inr ap \<and> atomic_propositions t = set ap"
      using ap by (simp add: L closure_of_strings_eq)
    have 2: "ATrue \<in> atomic_propositions t"
      by (simp add: ap gen)
    have 3: "(\<forall>x\<in>set L. \<exists>p. x = Atom (AStr p)
            \<and> AStr p \<in> atomic_propositions t
            \<and> (if p \<noteq> [] \<and> hd p = CHR ''!'' then AStr (tl p) \<in> atomic_propositions t
                else AStr (CHR ''!'' # p) \<in> atomic_propositions t))"
    proof
      fix x
      assume "x \<in> set L"
      then obtain p where x: "x = Atom (AStr p)" and p: "p \<in> set qs"
        by (auto simp: L set_strings)
      from p have a: "AStr p \<in> atomic_propositions t"
        and n: "AStr (negate p) \<in> atomic_propositions t"
        by (auto simp: ap gen)
      have "AStr (tl p) \<in> atomic_propositions t" if "p \<noteq> [] \<and> hd p = CHR ''!''"
        using n that by (simp add: negate_def)
      moreover have "AStr (CHR ''!'' # p) \<in> atomic_propositions t"
        if "\<not> (p \<noteq> [] \<and> hd p = CHR ''!'')"
        using n that by (simp add: negate_def)
      ultimately show "\<exists>p. x = Atom (AStr p)
            \<and> AStr p \<in> atomic_propositions t
            \<and> (if p \<noteq> [] \<and> hd p = CHR ''!'' then AStr (tl p) \<in> atomic_propositions t
                else AStr (CHR ''!'' # p) \<in> atomic_propositions t)"
        using x a by (intro exI [of _ p]) simp
    qed
    have "{a. Atom a \<in> set L} = AStr ` set qs"
      by (auto simp: L set_strings)
    then have 4: "{a. Atom a \<in> set L} \<subset> atomic_propositions t"
      using 2 by (auto simp: ap gen)
    from 1 2 3 4 show ?thesis
      by (intro conjI)
  qed
  have cyc: "(\<exists>ap. negation_closure L = Inr ap \<and> atomic_propositions c = set ap)
      \<and> ATrue \<in> atomic_propositions c
      \<and> (\<forall>x\<in>set L. \<exists>p. x = Atom (AStr p)
            \<and> AStr p \<in> atomic_propositions c
            \<and> (if p \<noteq> [] \<and> hd p = CHR ''!'' then AStr (tl p) \<in> atomic_propositions c
                else AStr (CHR ''!'' # p) \<in> atomic_propositions c))
      \<and> {a. Atom a \<in> set L} \<subset> atomic_propositions c"
    if run: "cycle_labeled_with L = Inr c"
  proof -
    from run obtain t where t: "line_labeled_with L 0 = Inr t"
      by (auto simp: cycle_labeled_with_def and_then_eq_Inr)
    from cycle_of_line(2) [OF t] run have eq: "atomic_propositions c = atomic_propositions t"
      by auto
    show ?thesis
      unfolding eq by (rule line [OF t])
  qed
  have ok: "(\<exists>ts'. line_labeled_with (strings ps) m = Inr ts')
        \<and> (\<exists>c'. cycle_labeled_with (strings ps) = Inr c')" if ne: "ps \<noteq> []"
  proof -
    from line_labeled_with_strings [OF ne, of m]
    have a: "\<exists>ts'. line_labeled_with (strings ps) m = Inr ts'"
      by blast
    from line_labeled_with_strings [OF ne, of 0]
    obtain t where "line_labeled_with (strings ps) 0 = Inr t"
      by blast
    from cycle_of_line(2) [OF this] have "\<exists>c'. cycle_labeled_with (strings ps) = Inr c'"
      by blast
    with a show ?thesis ..
  qed
  from line cyc ok show ?thesis
    by blast
qed

theorem line_labeled_with_aps_closure_witness:
  "negation_closure (strings [''p'', ''p'', ''q''])
     = Inr [AStr ''p'', AStr ''!p'', AStr ''q'', AStr ''!q'', ATrue]
   \<and> (\<exists>ts. line_labeled_with (strings [''p'', ''p'', ''q'']) 0 = Inr ts
         \<and> atomic_propositions ts = {AStr ''p'', AStr ''!p'', AStr ''q'', AStr ''!q'', ATrue}
         \<and> AStr ''!p'' \<in> atomic_propositions ts \<and> AStr ''!q'' \<in> atomic_propositions ts
         \<and> {a. Atom a \<in> set (strings [''p'', ''p'', ''q''])} \<subset> atomic_propositions ts
         \<and> {a. Atom a \<in> set (strings [''p'', ''p'', ''q''])} = {AStr ''p'', AStr ''q''})
   \<and> (\<exists>c. cycle_labeled_with (strings [''p'', ''p'', ''q'']) = Inr c
         \<and> AStr ''!p'' \<in> atomic_propositions c
         \<and> {a. Atom a \<in> set (strings [''p'', ''p'', ''q''])} \<subset> atomic_propositions c)"
proof -
  let ?L = "strings [''p'', ''p'', ''q'']"
  let ?R = "\<lparr>name = ''fts'',
            atomic_propositions = {AStr ''p'', AStr ''!p'', AStr ''q'', AStr ''!q'', ATrue},
            actions = {},
            states = [AStr ''s0'', AStr ''s1'', AStr ''s2''], initial = {},
            label_of = [AStr ''s0'' \<mapsto> {AStr ''p''}, AStr ''s1'' \<mapsto> {AStr ''p''},
                        AStr ''s2'' \<mapsto> {AStr ''q''}],
            transitions = [(AStr ''s0'', AStr ''s1'', None), (AStr ''s1'', AStr ''s2'', None)],
            mutants = False\<rparr> :: (atom, atom) fts"
  let ?C = "\<lparr>name = ''fts'',
            atomic_propositions = {AStr ''p'', AStr ''!p'', AStr ''q'', AStr ''!q'', ATrue},
            actions = {},
            states = [AStr ''s0'', AStr ''s1'', AStr ''s2''], initial = {},
            label_of = [AStr ''s0'' \<mapsto> {AStr ''p''}, AStr ''s1'' \<mapsto> {AStr ''p''},
                        AStr ''s2'' \<mapsto> {AStr ''q''}],
            transitions = [(AStr ''s0'', AStr ''s1'', None), (AStr ''s1'', AStr ''s2'', None),
                           (AStr ''s2'', AStr ''s0'', None)],
            mutants = False\<rparr> :: (atom, atom) fts"
  note th = line_labeled_with_aps_closure
    [where L = ?L and m = 0 and ts = ?R and c = ?C and ps = "[''p'', ''p'', ''q'']"]
  have nc: "negation_closure ?L = Inr [AStr ''p'', AStr ''!p'', AStr ''q'', AStr ''!q'', ATrue]"
    by (simp add: strings_def negation_closure_def negate_def unique_def)
  have labels: "{a. Atom a \<in> set ?L} = {AStr ''p'', AStr ''q''}"
    by (auto simp: strings_def)
  have inL: "Atom (AStr ''p'') \<in> set ?L" "Atom (AStr ''q'') \<in> set ?L"
    by (simp_all add: strings_def)
  note lineT = th [THEN conjunct1, THEN mp, OF line_ppq]
  note cycT = th [THEN conjunct2, THEN conjunct1, THEN mp, OF cycle_ppq]
  from lineT have l: "{a. Atom a \<in> set ?L} \<subset> atomic_propositions ?R"
    by blast
  from lineT have tgl: "\<forall>x\<in>set ?L. \<exists>p. x = Atom (AStr p)
            \<and> AStr p \<in> atomic_propositions ?R
            \<and> (if p \<noteq> [] \<and> hd p = CHR ''!'' then AStr (tl p) \<in> atomic_propositions ?R
                else AStr (CHR ''!'' # p) \<in> atomic_propositions ?R)"
    by blast
  from tgl [rule_format, OF inL(1)] have tp: "AStr ''!p'' \<in> atomic_propositions ?R"
    by auto
  from tgl [rule_format, OF inL(2)] have tq: "AStr ''!q'' \<in> atomic_propositions ?R"
    by auto
  from cycT have c: "{a. Atom a \<in> set ?L} \<subset> atomic_propositions ?C"
    by blast
  from cycT have tgc: "\<forall>x\<in>set ?L. \<exists>p. x = Atom (AStr p)
            \<and> AStr p \<in> atomic_propositions ?C
            \<and> (if p \<noteq> [] \<and> hd p = CHR ''!'' then AStr (tl p) \<in> atomic_propositions ?C
                else AStr (CHR ''!'' # p) \<in> atomic_propositions ?C)"
    by blast
  from tgc [rule_format, OF inL(1)] have cp: "AStr ''!p'' \<in> atomic_propositions ?C"
    by auto
  have ap: "atomic_propositions ?R = {AStr ''p'', AStr ''!p'', AStr ''q'', AStr ''!q'', ATrue}"
    by simp
  from line_ppq ap tp tq l labels have "\<exists>ts. line_labeled_with ?L 0 = Inr ts
         \<and> atomic_propositions ts = {AStr ''p'', AStr ''!p'', AStr ''q'', AStr ''!q'', ATrue}
         \<and> AStr ''!p'' \<in> atomic_propositions ts \<and> AStr ''!q'' \<in> atomic_propositions ts
         \<and> {a. Atom a \<in> set ?L} \<subset> atomic_propositions ts
         \<and> {a. Atom a \<in> set ?L} = {AStr ''p'', AStr ''q''}"
    by (intro exI [of _ ?R] conjI)
  moreover from cycle_ppq cp c have "\<exists>c. cycle_labeled_with ?L = Inr c
         \<and> AStr ''!p'' \<in> atomic_propositions c
         \<and> {a. Atom a \<in> set ?L} \<subset> atomic_propositions c"
    by (intro exI [of _ ?C] conjI)
  ultimately show ?thesis
    using nc by (intro conjI)
qed

end
